theory Spec2Isabelle
  imports Main
begin

section \<open>Go values used by the email channel\<close>

text \<open>
  A Go string is a sequence of bytes, and so is a HOL \<open>string\<close>: \<open>len\<close> is
  \<open>length\<close>, \<open>s[:n]\<close> is \<open>take n s\<close>, and \<open>fmt.Sprintf\<close> with \<open>%s\<close> verbs is
  concatenation. Go's \<open>int\<close> is read as \<open>int\<close>: the channel only compares ports with
  constants and prints them.
\<close>

text \<open>An error value: one that the network or a server answers with, or one that a
  library makes itself with \<open>errors.New\<close>.\<close>

datatype error = TransportError string | LibraryError string

text \<open>
  What a call comes to: it returns, or the goroutine blocks for ever inside it.
  \<open>Blocks\<close> carries the state in which the call that never returns was made; what
  that call did before it blocked is not part of it.
\<close>

datatype 'a outcome = returns: Returns (state: 'a) | blocks: Blocks (state: 'a)

text \<open>The run-time panics the channel code can raise: an index out of range (index and
  length), a nil pointer dereference, the close of a closed channel, and a ticker with an
  interval that is not positive.\<close>

datatype panic =
  IndexOutOfRange nat nat | NilDereference | CloseOfClosedChannel | NonPositiveInterval

text \<open>A product of two \<open>int64\<close> values wraps around.\<close>

definition wrap64 :: "int \<Rightarrow> int" where
  "wrap64 x = (x + 2 ^ 63) mod 2 ^ 64 - 2 ^ 63"

text \<open>\<open>%d\<close> of \<open>fmt.Sprintf\<close>: the decimal digits, with a sign for a negative number.\<close>

fun nat_digits :: "nat \<Rightarrow> string" where
  "nat_digits n =
     (if n < 10 then [char_of (48 + n)]
      else nat_digits (n div 10) @ [char_of (48 + n mod 10)])"

definition itoa :: "int \<Rightarrow> string" where
  "itoa i = (if i < 0 then CHR ''-'' # nat_digits (nat (- i)) else nat_digits (nat i))"

text \<open>\<open>fmt.Sprintf("%s:%d", server, port)\<close>, the address every dial is given.\<close>

definition host_port :: "string \<Rightarrow> int \<Rightarrow> string" where
  "host_port server port = server @ '':'' @ itoa port"

text \<open>
  \<open>strings.TrimSpace\<close> removes the leading and the trailing white-space runes of a
  string, white space being what \<open>unicode.IsSpace\<close> accepts. On the bytes of the string
  these are the UTF-8 encodings below: tab, line feed, vertical tab, form feed, carriage
  return, space, U+0085, U+00A0, U+1680, U+2000 to U+200A, U+2028, U+2029, U+202F, U+205F
  and U+3000.
\<close>

definition space_runes :: "string list" where
  "space_runes =
     [[CHR 0x09], [CHR 0x0A], [CHR 0x0B], [CHR 0x0C], [CHR 0x0D], [CHR 0x20],
      [CHR 0xC2, CHR 0x85], [CHR 0xC2, CHR 0xA0],
      [CHR 0xE1, CHR 0x9A, CHR 0x80],
      [CHR 0xE2, CHR 0x80, CHR 0x80], [CHR 0xE2, CHR 0x80, CHR 0x81],
      [CHR 0xE2, CHR 0x80, CHR 0x82], [CHR 0xE2, CHR 0x80, CHR 0x83],
      [CHR 0xE2, CHR 0x80, CHR 0x84], [CHR 0xE2, CHR 0x80, CHR 0x85],
      [CHR 0xE2, CHR 0x80, CHR 0x86], [CHR 0xE2, CHR 0x80, CHR 0x87],
      [CHR 0xE2, CHR 0x80, CHR 0x88], [CHR 0xE2, CHR 0x80, CHR 0x89],
      [CHR 0xE2, CHR 0x80, CHR 0x8A],
      [CHR 0xE2, CHR 0x80, CHR 0xA8], [CHR 0xE2, CHR 0x80, CHR 0xA9],
      [CHR 0xE2, CHR 0x80, CHR 0xAF], [CHR 0xE2, CHR 0x81, CHR 0x9F],
      [CHR 0xE3, CHR 0x80, CHR 0x80]]"

text \<open>The number of bytes of the white-space rune a string starts with; 0 when it starts
  with none.\<close>

definition space_width :: "string list \<Rightarrow> string \<Rightarrow> nat" where
  "space_width runes s =
     (case filter (\<lambda>w. w \<noteq> [] \<and> take (length w) s = w) runes of
        [] \<Rightarrow> 0
      | w # _ \<Rightarrow> length w)"

function trim_left :: "string list \<Rightarrow> string \<Rightarrow> string" where
  "trim_left runes s =
     (if space_width runes s = 0 then s else trim_left runes (drop (space_width runes s) s))"
  by pat_completeness auto

lemma space_width_nonempty: "space_width runes s \<noteq> 0 \<Longrightarrow> s \<noteq> []"
proof
  assume w: "space_width runes s \<noteq> 0" and e: "s = []"
  have "filter (\<lambda>w. w \<noteq> [] \<and> take (length w) s = w) runes = []"
    unfolding e by (induction runes) auto
  with w show False by (simp add: space_width_def)
qed

lemma space_width_shortens:
  "0 < space_width runes s \<Longrightarrow> length s - space_width runes s < length s"
  using space_width_nonempty [of runes s] by (cases s) auto

termination trim_left
  by (relation "measure (\<lambda>(r, s). length s)") (auto simp: space_width_shortens)

definition TrimSpace :: "string \<Rightarrow> string" where
  "TrimSpace s = rev (trim_left (map rev space_runes) (rev (trim_left space_runes s)))"

text \<open>\<open>strings.SplitN(s, ":", 2)\<close>: the string itself when it holds no colon, else what
  stands before the first colon and everything after it.\<close>

definition SplitN_colon_2 :: "string \<Rightarrow> string list" where
  "SplitN_colon_2 s =
     (if CHR '':'' \<in> set s
      then [takeWhile (\<lambda>c. c \<noteq> CHR '':'') s, tl (dropWhile (\<lambda>c. c \<noteq> CHR '':'') s)]
      else [s])"

section \<open>Configuration\<close>

text \<open>
  Package \<open>config\<close> is not among the sources; the records hold the fields the channel
  reads. \<open>EmailConfig\<close> has the account list and, beside it, the fields of the older
  single-account form (prefixed \<open>cfg_\<close> here, since a record cannot reuse a field name).
\<close>

record EmailAccountConfig =
  Email :: string
  IMAPServer :: string
  IMAPPort :: int
  IMAPUser :: string
  IMAPPassword :: string
  SMTPServer :: string
  SMTPPort :: int
  SMTPUser :: string
  SMTPPassword :: string

record EmailConfig =
  Accounts :: "EmailAccountConfig list"
  AllowFrom :: "string list"
  ForwardTo :: string
  PollInterval :: int
  cfg_IMAPServer :: string
  cfg_IMAPPort :: int
  cfg_IMAPUser :: string
  cfg_IMAPPassword :: string
  cfg_SMTPServer :: string
  cfg_SMTPPort :: int
  cfg_SMTPUser :: string
  cfg_SMTPPassword :: string

section \<open>The message bus and the base channel\<close>

text \<open>
  Packages \<open>bus\<close> and the file of \<open>BaseChannel\<close> are not among the sources. The
  records follow the data model of the specification (section 3) and the literals the
  channel writes (\<open>bus.OutboundMessage{Channel, ChatID, Content}\<close>); the bus keeps
  what was published, in order.
\<close>

record InboundMessage =
  sourceChannel :: string
  senderID :: string
  chatID :: string
  content :: string
  attachments :: "string list"
  metadata :: "string \<rightharpoonup> string"

record OutboundMessage =
  Channel :: string
  ChatID :: string
  Content :: string

record MessageBus =
  inbound :: "InboundMessage list"
  outbound :: "OutboundMessage list"

text \<open>Modelled from the spec: \<open>PublishInbound\<close> of the missing bus package hands the
  message to the agent loop's inbound queue. It returns nothing to the publisher.\<close>

definition PublishInbound :: "InboundMessage \<Rightarrow> MessageBus \<Rightarrow> MessageBus" where
  "PublishInbound msg b = b\<lparr>inbound := inbound b @ [msg]\<rparr>"

text \<open>Modelled from the spec: \<open>PublishOutbound\<close> of the missing bus package enqueues the
  message for the channel it names. It returns nothing to the publisher.\<close>

definition PublishOutbound :: "OutboundMessage \<Rightarrow> MessageBus \<Rightarrow> MessageBus" where
  "PublishOutbound msg b = b\<lparr>outbound := outbound b @ [msg]\<rparr>"

record BaseChannel =
  name :: string
  running :: bool
  allowList :: "string list"
  bus :: MessageBus

text \<open>Modelled from the spec: \<open>NewBaseChannel\<close> of the missing base channel file; a
  new channel is not running.\<close>

definition NewBaseChannel :: "string \<Rightarrow> MessageBus \<Rightarrow> string list \<Rightarrow> BaseChannel" where
  "NewBaseChannel n b allow = \<lparr>name = n, running = False, allowList = allow, bus = b\<rparr>"

text \<open>Modelled from the spec: \<open>IsAllowed\<close> of the missing base channel file is true if
  the allow-list is empty, or if the sender matches an entry case-sensitively.\<close>

definition IsAllowed :: "'a BaseChannel_scheme \<Rightarrow> string \<Rightarrow> bool" where
  "IsAllowed c sender = (allowList c = [] \<or> sender \<in> set (allowList c))"

text \<open>Modelled from the spec: \<open>setRunning\<close> of the missing base channel file stores the
  running flag.\<close>

definition setRunning :: "bool \<Rightarrow> 'a BaseChannel_scheme \<Rightarrow> 'a BaseChannel_scheme" where
  "setRunning r c = c\<lparr>running := r\<rparr>"

text \<open>Modelled from the spec: \<open>HandleMessage\<close> of the missing base channel file applies
  the allow-list check, then calls \<open>PublishInbound\<close>.\<close>

definition HandleMessage ::
  "'a BaseChannel_scheme \<Rightarrow> string \<Rightarrow> string \<Rightarrow> string \<Rightarrow> string list \<Rightarrow>
     (string \<rightharpoonup> string) \<Rightarrow> 'a BaseChannel_scheme" where
  "HandleMessage c sender chat text media meta =
     (if \<not> IsAllowed c sender then c
      else c\<lparr>bus := PublishInbound
             \<lparr>sourceChannel = name c, senderID = sender, chatID = chat, content = text,
              attachments = media, metadata = meta\<rparr> (bus c)\<rparr>)"

section \<open>The mail store, as the IMAP client shows it\<close>

text \<open>
  The libraries go-imap and go-message are outside the repository. A fetched message is
  what the channel reads of \<open>imap.Message\<close>: its UID, its envelope (a pointer, so it may
  be nil), its flag \<open>\Seen\<close>, and the body section as the mail reader delivers it: no section
  (\<open>GetBody\<close> returns nil), a section \<open>mail.CreateReader\<close> refuses, or the parts that
  \<open>NextPart\<close> returns before the end of the message or its first error. A part's
  header is an inline header, with the media type its \<open>ContentType\<close> gives, or an
  attachment header; \<open>Body\<close> is what \<open>io.ReadAll\<close> reads of it.
\<close>

type_synonym time = int

record Address =
  MailboxName :: string
  HostName :: string

record Envelope =
  Date :: time
  Subject :: string
  From :: "Address list"

datatype PartHeader = InlineHeader string | AttachmentHeader

record Part =
  Header :: PartHeader
  Body :: string

datatype BodySection = NoSection | NoReader | Parts "Part list"

record Message =
  Uid :: nat
  Envelope :: "Envelope option"
  Seen :: bool
  Section :: BodySection

text \<open>
  A connection of the client: its state, the inbox it serves (the message with sequence
  number \<open>n\<close> is at position \<open>n - 1\<close>), how the server behaves, and the commands
  sent so far. The behaviour of the server is the errors it will answer with and
  \<open>seen_on_fetch\<close>: whether it sets the flag \<open>\Seen\<close> itself on a message whose body
  is fetched, as RFC 3501 has it for \<open>BODY[]\<close> in a mailbox selected for writing (the
  channel selects with \<open>readOnly = false\<close> and fetches without \<open>Peek\<close>).
  \<open>Search\<close> answers with message sequence numbers, \<open>Fetch\<close> and \<open>Store\<close> read their
  set as sequence numbers (the library's \<open>UidSearch\<close>, \<open>UidFetch\<close> and \<open>UidStore\<close>
  are the variants on UIDs, and the channel calls none of them). The search answers in
  mailbox order, and the fetch delivers every message of its set, with the flags it had
  before the fetch (the channel asks for the flags and never reads them).
\<close>

datatype ConnState = NotAuthenticatedState | AuthenticatedState | SelectedState | LogoutState

datatype Command =
  CmdLogin string string | CmdSelect | CmdSearch | CmdFetch "nat list" | CmdStore nat | CmdLogout

record Client =
  State :: ConnState
  Inbox :: "Message list"
  login_err :: "error option"
  select_err :: "error option"
  search_err :: "error option"
  store_err :: "nat \<Rightarrow> error option"
  seen_on_fetch :: bool
  Sent :: "Command list"

definition Login :: "Client \<Rightarrow> string \<Rightarrow> string \<Rightarrow> error option \<times> Client" where
  "Login cl user password =
     (let cl1 = cl\<lparr>Sent := Sent cl @ [CmdLogin user password]\<rparr>
      in case login_err cl of
           Some e \<Rightarrow> (Some e, cl1)
         | None \<Rightarrow> (None, cl1\<lparr>State := AuthenticatedState\<rparr>))"

definition Logout :: "Client \<Rightarrow> Client" where
  "Logout cl = cl\<lparr>State := LogoutState, Sent := Sent cl @ [CmdLogout]\<rparr>"

text \<open>\<open>Select("INBOX", false)\<close>: the number of messages of the mailbox, or an error.\<close>

definition Select :: "Client \<Rightarrow> (error + nat) \<times> Client" where
  "Select cl =
     (if State cl \<noteq> AuthenticatedState \<and> State cl \<noteq> SelectedState
      then (Inl (LibraryError ''Not logged in''), cl)
      else let cl1 = cl\<lparr>Sent := Sent cl @ [CmdSelect]\<rparr>
           in case select_err cl of
                Some e \<Rightarrow> (Inl e, cl1\<lparr>State := AuthenticatedState\<rparr>)
              | None \<Rightarrow> (Inr (length (Inbox cl)), cl1\<lparr>State := SelectedState\<rparr>))"

text \<open>The search for messages without the flag \<open>\Seen\<close>: their sequence numbers,
  ascending.\<close>

definition unseen :: "Message list \<Rightarrow> nat list" where
  "unseen inbox = filter (\<lambda>n. \<not> Seen (inbox ! (n - 1))) [1 ..< Suc (length inbox)]"

definition Search :: "Client \<Rightarrow> (error + nat list) \<times> Client" where
  "Search cl =
     (if State cl \<noteq> SelectedState then (Inl (LibraryError ''No mailbox selected''), cl)
      else let cl1 = cl\<lparr>Sent := Sent cl @ [CmdSearch]\<rparr>
           in case search_err cl of
                Some e \<Rightarrow> (Inl e, cl1)
              | None \<Rightarrow> (Inr (unseen (Inbox cl)), cl1))"

text \<open>The flag \<open>\Seen\<close> set on the message with sequence number \<open>n\<close>, if there is
  one.\<close>

definition mark_seen :: "Message list \<Rightarrow> nat \<Rightarrow> Message list" where
  "mark_seen inbox n =
     (if 1 \<le> n \<and> n \<le> length inbox
      then inbox[n - 1 := (inbox ! (n - 1))\<lparr>Seen := True\<rparr>]
      else inbox)"

definition Fetch :: "Client \<Rightarrow> nat list \<Rightarrow> Message list \<times> Client" where
  "Fetch cl seqset =
     (map (\<lambda>n. Inbox cl ! (n - 1)) (filter (\<lambda>n. 1 \<le> n \<and> n \<le> length (Inbox cl)) seqset),
      cl\<lparr>Inbox := (if seen_on_fetch cl then foldl mark_seen (Inbox cl) seqset else Inbox cl),
         Sent := Sent cl @ [CmdFetch seqset]\<rparr>)"

text \<open>
  \<open>Fetch\<close> sends the messages on the channel it is given, one at a time, from the
  goroutine that reads the connection. Both polls give it a channel without a buffer
  (\<open>make(chan *imap.Message)\<close>), so after each message that goroutine waits, with the
  next message in hand, until the loop of the poll receives again; no answer of the
  server is read meanwhile. A command that the loop issues while a fetched message is
  still to be delivered is therefore never answered, and the call never returns. The
  loops below take this case with \<open>Blocks\<close>. After the last message the fetch ends and a
  command is answered as usual.
\<close>

text \<open>\<open>Store\<close> with \<open>+FLAGS.SILENT (\Seen)\<close> on the one-element set \<open>{n}\<close>.\<close>

definition Store :: "Client \<Rightarrow> nat \<Rightarrow> error option \<times> Client" where
  "Store cl n =
     (let cl1 = cl\<lparr>Sent := Sent cl @ [CmdStore n]\<rparr>
      in case store_err cl n of
           Some e \<Rightarrow> (Some e, cl1)
         | None \<Rightarrow> (None, cl1\<lparr>Inbox := mark_seen (Inbox cl) n\<rparr>))"

text \<open>
  Time: an instant is a number of nanoseconds, a \<open>time.Duration\<close> a signed 64-bit number
  of nanoseconds, and \<open>Time.Sub\<close> saturates at the largest and the smallest duration.
  \<open>time.Since(t)\<close> is \<open>time.Now().Sub(t)\<close>; the reading of the clock is an argument.
\<close>

definition maxDuration :: int where
  "maxDuration = 2 ^ 63 - 1"

definition minDuration :: int where
  "minDuration = - (2 ^ 63)"

definition Sub :: "time \<Rightarrow> time \<Rightarrow> int" where
  "Sub t u = (if t - u > maxDuration then maxDuration
              else if t - u < minDuration then minDuration else t - u)"

definition Hour :: int where
  "Hour = 3600000000000"

text \<open>
  What the network answers. A dial of the IMAP client yields a connection or an error.
  Every step of an SMTP session succeeds or fails with an error; \<open>ehlo\<close> is the list
  of extensions the SMTP server announces on a connection without TLS, \<open>None\<close> when
  it understands \<open>HELO\<close> only, and \<open>ehlo_tls\<close> the list it announces after the upgrade
  of the connection.
\<close>

datatype smtp_step =
  TLSDial string string
  | NewClient string
  | PlainDial string
  | Hello
  | StartTLS string
  | Auth string string string
  | Mail string
  | Rcpt string
  | Data
  | Write string
  | Close
  | Quit
  | ConnClose

record Network =
  DialTLS :: "string \<Rightarrow> error + Client"
  Dial :: "string \<Rightarrow> error + Client"
  smtp :: "smtp_step \<Rightarrow> error option"
  ehlo :: "string list option"
  ehlo_tls :: "string list"

text \<open>The steps of a session are tried in order and stop at the first that fails; the
  result is that error and the steps tried.\<close>

fun attempt :: "Network \<Rightarrow> smtp_step list \<Rightarrow> error option \<times> smtp_step list" where
  "attempt net [] = (None, [])"
| "attempt net (s # ss) =
     (case smtp net s of
        Some err \<Rightarrow> (Some err, [s])
      | None \<Rightarrow> (let (r, tried) = attempt net ss in (r, s # tried)))"

text \<open>
  \<open>smtp.SendMail\<close> of the Go standard library, called with \<open>smtp.PlainAuth\<close> on
  \<open>user\<close>, \<open>password\<close> and \<open>host\<close>. It refuses a sender or a recipient with a
  carriage return or a line feed; it dials the address without TLS (the deferred close of
  the connection runs on every way out from there) and says hello; it upgrades the
  connection with \<open>STARTTLS\<close> if, and only if, the server announces that extension; when
  the server announced extensions, it gives up unless \<open>AUTH\<close> is among those of the
  connection as it is then, and authenticates (\<open>PlainAuth\<close> itself refuses a connection
  without TLS to a host other than the local one: an error of the step \<open>Auth\<close>); then
  come the sender, the recipients, the data and \<open>QUIT\<close>, whose error is returned.
\<close>

definition validateLine :: "string \<Rightarrow> error option" where
  "validateLine line =
     (if CHR 0x0D \<in> set line \<or> CHR 0x0A \<in> set line
      then Some (LibraryError ''smtp: A line must not contain CR or LF'')
      else None)"

definition SendMail ::
  "Network \<Rightarrow> string \<Rightarrow> string \<Rightarrow> string \<Rightarrow> string \<Rightarrow> string \<Rightarrow> string list \<Rightarrow> string \<Rightarrow>
     error option \<times> smtp_step list" where
  "SendMail net addr user password host sender to msg =
     (case find (\<lambda>line. validateLine line \<noteq> None) (sender # to) of
        Some line \<Rightarrow> (validateLine line, [])
      | None \<Rightarrow>
     (case smtp net (PlainDial addr) of
        Some err \<Rightarrow> (Some err, [PlainDial addr])
      | None \<Rightarrow>
     (case smtp net Hello of
        Some err \<Rightarrow> (Some err, [PlainDial addr, Hello, ConnClose])
      | None \<Rightarrow>
          (let upgrade = (case ehlo net of None \<Rightarrow> False | Some ext \<Rightarrow> ''STARTTLS'' \<in> set ext);
               opened = [PlainDial addr, Hello] @ (if upgrade then [StartTLS host] else []);
               ext = (if upgrade then Some (ehlo_tls net) else ehlo net);
               commands = map Rcpt to @ [Data, Write msg, Close, Quit]
           in case (if upgrade then smtp net (StartTLS host) else None) of
                Some err \<Rightarrow> (Some err, opened @ [ConnClose])
              | None \<Rightarrow>
                  (case ext of
                     None \<Rightarrow>
                       (let (r, tried) = attempt net (Mail sender # commands)
                        in (r, opened @ tried @ [ConnClose]))
                   | Some announced \<Rightarrow>
                       if ''AUTH'' \<notin> set announced
                       then (Some (LibraryError (''smtp: server doesn'' @ [CHR 0x27] @ ''t support AUTH'')),
                             opened @ [ConnClose])
                       else (let (r, tried) =
                                   attempt net (Auth user password host # Mail sender # commands)
                             in (r, opened @ tried @ [ConnClose])))))))"

section \<open>The email channel with several accounts\<close>

text \<open>
  \<open>EmailChannel\<close> embeds \<open>BaseChannel\<close>; its field \<open>bus\<close> is the bus of the base
  channel (one pointer in the source). \<open>imapClients\<close> maps an account's address to
  its connection. \<open>manualCheck\<close> is the buffer of a channel of capacity 1,
  \<open>stopChan\<close> tells whether that channel is closed, and \<open>pollLoops\<close> counts the
  goroutines started with \<open>go c.pollLoop(ctx)\<close>.
\<close>

record EmailChannel = BaseChannel +
  config :: EmailConfig
  imapClients :: "string \<rightharpoonup> Client"
  stopChan :: bool
  manualCheck :: "bool list"
  pollLoops :: nat

definition NewEmailChannel :: "EmailConfig \<Rightarrow> MessageBus \<Rightarrow> EmailChannel" where
  "NewEmailChannel cfg0 b =
     (let cfg =
        (if length (Accounts cfg0) = 0 \<and> cfg_IMAPServer cfg0 \<noteq> []
         then cfg0\<lparr>Accounts :=
                [\<lparr>Email = cfg_IMAPUser cfg0,
                  IMAPServer = cfg_IMAPServer cfg0,
                  IMAPPort = cfg_IMAPPort cfg0,
                  IMAPUser = cfg_IMAPUser cfg0,
                  IMAPPassword = cfg_IMAPPassword cfg0,
                  SMTPServer = cfg_SMTPServer cfg0,
                  SMTPPort = cfg_SMTPPort cfg0,
                  SMTPUser = cfg_SMTPUser cfg0,
                  SMTPPassword = cfg_SMTPPassword cfg0\<rparr>]\<rparr>
         else cfg0);
        base = NewBaseChannel ''email'' b (AllowFrom cfg)
      in \<lparr>name = name base, running = running base, allowList = allowList base,
          bus = bus base,
          config = cfg, imapClients = Map.empty, stopChan = False, manualCheck = [],
          pollLoops = 0\<rparr>)"

definition connectIMAPAccount :: "Network \<Rightarrow> EmailAccountConfig \<Rightarrow> error + Client" where
  "connectIMAPAccount net acc =
     (let addr = host_port (IMAPServer acc) (IMAPPort acc)
      in case (if IMAPPort acc = 993 then DialTLS net addr else Dial net addr) of
           Inl err \<Rightarrow> Inl err
         | Inr cClient \<Rightarrow>
             (case Login cClient (IMAPUser acc) (IMAPPassword acc) of
                (Some err, cl) \<Rightarrow> Inl err
              | (None, cl) \<Rightarrow> Inr cl))"

fun connectAllIMAP_loop ::
  "Network \<Rightarrow> EmailAccountConfig list \<Rightarrow> (string \<rightharpoonup> Client) \<Rightarrow> (string \<rightharpoonup> Client)" where
  "connectAllIMAP_loop net [] clients = clients"
| "connectAllIMAP_loop net (acc # accs) clients =
     (if Email acc = [] then connectAllIMAP_loop net accs clients
      else if (case clients (Email acc) of
                 Some client \<Rightarrow> State client = AuthenticatedState
               | None \<Rightarrow> False)
      then connectAllIMAP_loop net accs clients
      else case connectIMAPAccount net acc of
             Inl err \<Rightarrow> connectAllIMAP_loop net accs clients
           | Inr client \<Rightarrow> connectAllIMAP_loop net accs (clients(Email acc \<mapsto> client)))"

definition connectAllIMAP :: "Network \<Rightarrow> EmailChannel \<Rightarrow> EmailChannel" where
  "connectAllIMAP net c =
     c\<lparr>imapClients := connectAllIMAP_loop net (Accounts (config c)) (imapClients c)\<rparr>"


text \<open>\<open>Stop\<close> clears the flag, closes \<open>stopChan\<close> (a second close panics) and logs
  every connection out.\<close>

definition Stop :: "EmailChannel \<Rightarrow> panic + error option \<times> EmailChannel" where
  "Stop c =
     (let c1 = setRunning False c
      in if stopChan c1 then Inl CloseOfClosedChannel
         else Inr (None, c1\<lparr>imapClients := (\<lambda>k. map_option Logout (imapClients c1 k)),
                             stopChan := True\<rparr>))"

text \<open>\<open>CheckNow\<close>: the send on \<open>manualCheck\<close> if the buffer has room, else the
  default case.\<close>

definition CheckNow :: "EmailChannel \<Rightarrow> EmailChannel" where
  "CheckNow c =
     (if length (manualCheck c) < 1 then c\<lparr>manualCheck := manualCheck c @ [True]\<rparr>
      else c)"

subsection \<open>Processing one message\<close>

definition contentWithContext :: "string \<Rightarrow> string \<Rightarrow> string \<Rightarrow> string" where
  "contentWithContext account subject body =
     ''[Received at '' @ account @ '']'' @ [CHR 0x0A] @ ''Subject: '' @ subject
       @ [CHR 0x0A, CHR 0x0A] @ body"

text \<open>The loop over \<open>mr.NextPart()\<close>, with the body read so far.\<close>

fun extract_body :: "Part list \<Rightarrow> string \<Rightarrow> string" where
  "extract_body [] body = body"
| "extract_body (p # ps) body =
     (case Header p of
        InlineHeader contentType \<Rightarrow>
          (if contentType = ''text/plain'' then extract_body ps (Body p)
           else if contentType = ''text/html'' \<and> body = [] then extract_body ps (Body p)
           else extract_body ps body)
      | AttachmentHeader \<Rightarrow> extract_body ps body)"

text \<open>The two \<open>Sprintf\<close> formats of the forwarded notification; the first bytes are the
  UTF-8 encoding of the envelope sign U+1F4E7.\<close>

definition forward_head :: "string \<Rightarrow> string \<Rightarrow> string \<Rightarrow> string" where
  "forward_head accountEmail sender subject =
     [CHR 0xF0, CHR 0x9F, CHR 0x93, CHR 0xA7] @ '' **New Email ['' @ accountEmail @ '']**''
       @ [CHR 0x0A] @ ''**From:** '' @ sender @ [CHR 0x0A] @ ''**Subject:** '' @ subject
       @ [CHR 0x0A, CHR 0x0A]"

definition forwardContent :: "string \<Rightarrow> string \<Rightarrow> string \<Rightarrow> string \<Rightarrow> string" where
  "forwardContent accountEmail sender subject body =
     (if length body > 500
      then forward_head accountEmail sender subject @ take 500 body @ ''...''
      else forward_head accountEmail sender subject @ body)"

text \<open>\<open>processMessage\<close> on a message of the fetch, which is never nil.\<close>

definition processMessage :: "EmailChannel \<Rightarrow> Message \<Rightarrow> string \<Rightarrow> EmailChannel" where
  "processMessage c msg accountEmail =
     (case Envelope msg of
        None \<Rightarrow> c
      | Some env \<Rightarrow>
          (case From env of
             [] \<Rightarrow> c
           | from0 # _ \<Rightarrow>
               (let subject = Subject env;
                    sender = MailboxName from0 @ ''@'' @ HostName from0
                in if \<not> IsAllowed c sender then c
                   else (case Section msg of
                      NoSection \<Rightarrow> c
                    | NoReader \<Rightarrow> c
                    | Parts ps \<Rightarrow>
                        (let body = extract_body ps [];
                             chat = sender;
                             c1 = (if ForwardTo (config c) \<noteq> []
                                   then (case SplitN_colon_2 (ForwardTo (config c)) of
                                           [channel, targetChatID] \<Rightarrow>
                                             c\<lparr>bus := PublishOutbound
                                                 \<lparr>Channel = channel, ChatID = targetChatID,
                                                  Content = forwardContent accountEmail sender
                                                              subject body\<rparr> (bus c)\<rparr>
                                         | _ \<Rightarrow> c)
                                   else c)
                         in HandleMessage c1 sender chat
                              (contentWithContext accountEmail subject body) []
                              [''subject'' \<mapsto> subject, ''email'' \<mapsto> sender,
                               ''to'' \<mapsto> accountEmail])))))"

subsection \<open>One poll of one account\<close>

definition maxEmails :: nat where
  "maxEmails = 10"

text \<open>The time filter of the loop, at the clock reading \<open>now\<close>.\<close>

definition too_old :: "time \<Rightarrow> Message \<Rightarrow> bool" where
  "too_old now msg =
     (case Envelope msg of None \<Rightarrow> False | Some env \<Rightarrow> Sub now (Date env) > 1 * Hour)"

text \<open>
  The loop over the fetched messages; \<open>msgs\<close> are the messages the fetch has still to
  deliver when \<open>msg\<close> is received. \<open>clock k\<close> is the reading \<open>time.Since\<close> takes
  for the \<open>k\<close>-th message still to come. The error of \<open>Store\<close> is only logged; a
  \<open>Store\<close> called while the fetch has a message to deliver never returns.
\<close>

fun checkAccountMail_loop ::
  "(nat \<Rightarrow> time) \<Rightarrow> string \<Rightarrow> Message list \<Rightarrow> EmailChannel \<times> Client \<Rightarrow>
     (EmailChannel \<times> Client) outcome" where
  "checkAccountMail_loop clock accEmail [] (c, imapClient) = Returns (c, imapClient)"
| "checkAccountMail_loop clock accEmail (msg # msgs) (c, imapClient) =
     (if too_old (clock 0) msg
      then checkAccountMail_loop (\<lambda>k. clock (Suc k)) accEmail msgs (c, imapClient)
      else (let c1 = processMessage c msg accEmail
            in if msgs \<noteq> [] then Blocks (c1, imapClient)
               else checkAccountMail_loop (\<lambda>k. clock (Suc k)) accEmail msgs
                      (c1, snd (Store imapClient (Uid msg)))))"

definition checkAccountMail ::
  "(nat \<Rightarrow> time) \<Rightarrow> EmailChannel \<Rightarrow> Client \<Rightarrow> EmailAccountConfig \<Rightarrow>
     (EmailChannel \<times> Client) outcome" where
  "checkAccountMail clock c imapClient acc =
     (case Select imapClient of
        (Inl err, cl1) \<Rightarrow> Returns (c, Logout cl1)
      | (Inr messages, cl1) \<Rightarrow>
          if messages = 0 then Returns (c, cl1)
          else (case Search cl1 of
             (Inl err, cl2) \<Rightarrow> Returns (c, cl2)
           | (Inr uids, cl2) \<Rightarrow>
               if length uids = 0 then Returns (c, cl2)
               else (let uids1 = (if length uids > maxEmails
                                  then drop (length uids - maxEmails) uids else uids);
                         (fetched, cl3) = Fetch cl2 uids1
                     in checkAccountMail_loop clock (Email acc) fetched (c, cl3))))"

text \<open>\<open>checkAllMail\<close>: the connections are made, then every account with a connection
  that is not logged out is polled, until a poll blocks. \<open>clock\<close> gives each account its
  readings.\<close>

fun checkAllMail_loop ::
  "(string \<Rightarrow> nat \<Rightarrow> time) \<Rightarrow> EmailAccountConfig list \<Rightarrow> EmailChannel \<Rightarrow>
     EmailChannel outcome" where
  "checkAllMail_loop clock [] c = Returns c"
| "checkAllMail_loop clock (acc # accs) c =
     (case imapClients c (Email acc) of
        None \<Rightarrow> checkAllMail_loop clock accs c
      | Some client \<Rightarrow>
          if State client = LogoutState then checkAllMail_loop clock accs c
          else (case checkAccountMail (clock (Email acc)) c client acc of
                  Blocks (c1, client1) \<Rightarrow>
                    Blocks (c1\<lparr>imapClients := (imapClients c1)(Email acc \<mapsto> client1)\<rparr>)
                | Returns (c1, client1) \<Rightarrow>
                    checkAllMail_loop clock accs
                      (c1\<lparr>imapClients := (imapClients c1)(Email acc \<mapsto> client1)\<rparr>)))"

definition checkAllMail ::
  "Network \<Rightarrow> (string \<Rightarrow> nat \<Rightarrow> time) \<Rightarrow> EmailChannel \<Rightarrow> EmailChannel outcome" where
  "checkAllMail net clock c =
     (let c1 = connectAllIMAP net c in checkAllMail_loop clock (Accounts (config c1)) c1)"

subsection \<open>The poll loop\<close>

text \<open>
  One turn of the \<open>select\<close> of \<open>pollLoop\<close>: the case that is ready. The loop ends on
  \<open>ctx.Done()\<close> and on the closed \<open>stopChan\<close>; a tick and a value received from
  \<open>manualCheck\<close> run \<open>checkAllMail\<close>, and the loop goes on when that returns. A case
  that is not ready cannot be taken: the result is \<open>None\<close>.
\<close>

datatype poll_event = CtxDone | StopClosed | Tick | ManualCheck

datatype poll_status = Polling | Returned | Blocked

definition pollLoop_select ::
  "Network \<Rightarrow> (string \<Rightarrow> nat \<Rightarrow> time) \<Rightarrow> poll_event \<Rightarrow> EmailChannel \<Rightarrow>
     (poll_status \<times> EmailChannel) option" where
  "pollLoop_select net clock ev c =
     (case ev of
        CtxDone \<Rightarrow> Some (Returned, c)
      | StopClosed \<Rightarrow> (if stopChan c then Some (Returned, c) else None)
      | Tick \<Rightarrow>
          Some (case checkAllMail net clock c of
                  Returns c1 \<Rightarrow> (Polling, c1)
                | Blocks c1 \<Rightarrow> (Blocked, c1))
      | ManualCheck \<Rightarrow>
          (case manualCheck c of
             [] \<Rightarrow> None
           | v # rest \<Rightarrow>
               Some (case checkAllMail net clock (c\<lparr>manualCheck := rest\<rparr>) of
                       Returns c1 \<Rightarrow> (Polling, c1)
                     | Blocks c1 \<Rightarrow> (Blocked, c1))))"

text \<open>
  \<open>pollLoop\<close>: the ticker (\<open>time.NewTicker\<close> panics on an interval that is not
  positive), the initial check, then the turns of the \<open>select\<close> until the loop
  returns or a check blocks. Each poll comes with the network and the clock it meets.
\<close>

fun pollLoop_turns ::
  "(poll_event \<times> Network \<times> (string \<Rightarrow> nat \<Rightarrow> time)) list \<Rightarrow> EmailChannel \<Rightarrow>
     (poll_status \<times> EmailChannel) option" where
  "pollLoop_turns [] c = Some (Polling, c)"
| "pollLoop_turns ((ev, net, clock) # turns) c =
     (case pollLoop_select net clock ev c of
        None \<Rightarrow> None
      | Some (Returned, c1) \<Rightarrow> Some (Returned, c1)
      | Some (Blocked, c1) \<Rightarrow> Some (Blocked, c1)
      | Some (Polling, c1) \<Rightarrow> pollLoop_turns turns c1)"

definition pollLoop ::
  "Network \<Rightarrow> (string \<Rightarrow> nat \<Rightarrow> time) \<Rightarrow>
     (poll_event \<times> Network \<times> (string \<Rightarrow> nat \<Rightarrow> time)) list \<Rightarrow> EmailChannel \<Rightarrow>
     panic + (poll_status \<times> EmailChannel) option" where
  "pollLoop net clock turns c =
     (if wrap64 (PollInterval (config c) * 1000000000) \<le> 0 then Inl NonPositiveInterval
      else case checkAllMail net clock c of
             Blocks c1 \<Rightarrow> Inr (Some (Blocked, c1))
           | Returns c1 \<Rightarrow> Inr (pollLoop_turns turns c1))"

subsection \<open>Sending\<close>

definition mail_text :: "string \<Rightarrow> string \<Rightarrow> string \<Rightarrow> string" where
  "mail_text rcpt subject text =
     ''To: '' @ rcpt @ [CHR 0x0D, CHR 0x0A] @ ''Subject: '' @ subject
       @ [CHR 0x0D, CHR 0x0A, CHR 0x0D, CHR 0x0A] @ text @ [CHR 0x0D, CHR 0x0A]"

text \<open>
  The session of \<open>Send\<close> on the SMTP fields \<open>server\<close>, \<open>port\<close>, \<open>user\<close> and
  \<open>password\<close>. On port 465: \<open>tls.Dial\<close>, \<open>smtp.NewClient\<close>, then the commands; the
  deferred \<open>client.Quit()\<close> and \<open>conn.Close()\<close> run on the way out, once they
  are registered. On every other port the call of \<open>smtp.SendMail\<close>.
\<close>

definition smtp_session ::
  "Network \<Rightarrow> string \<Rightarrow> int \<Rightarrow> string \<Rightarrow> string \<Rightarrow> OutboundMessage \<Rightarrow>
     error option \<times> smtp_step list" where
  "smtp_session net server port user password msg =
     (let addr = host_port server port;
          to = [ChatID msg];
          subject = ''Re: PicoClaw Response'';
          body = mail_text (ChatID msg) subject (Content msg)
      in if port = 465
         then (case smtp net (TLSDial addr server) of
                 Some err \<Rightarrow> (Some err, [TLSDial addr server])
               | None \<Rightarrow>
                   (case smtp net (NewClient server) of
                      Some err \<Rightarrow> (Some err, [TLSDial addr server, NewClient server, ConnClose])
                    | None \<Rightarrow>
                        (let (r, tried) =
                               attempt net [Auth user password server, Mail user, Rcpt (hd to),
                                            Data, Write body, Close]
                         in (r, [TLSDial addr server, NewClient server] @ tried
                                  @ [Quit, ConnClose]))))
         else SendMail net addr user password server user to body)"

text \<open>\<open>Send\<close>: a panic, or the error returned; the channel; the network steps tried.\<close>

definition Send ::
  "Network \<Rightarrow> EmailChannel \<Rightarrow> OutboundMessage \<Rightarrow>
     (panic + error option) \<times> EmailChannel \<times> smtp_step list" where
  "Send net c msg =
     (if TrimSpace (Content msg) = ''CMD:CHECK'' then (Inr None, CheckNow c, [])
      else if length (Accounts (config c)) = 0
      then (Inl (IndexOutOfRange 0 0), c, [])
      else (let account = Accounts (config c) ! 0;
                (r, tried) = smtp_session net (SMTPServer account) (SMTPPort account)
                               (SMTPUser account) (SMTPPassword account) msg
            in (Inr r, c, tried)))"

section \<open>The email channel with a single account\<close>

text \<open>
  The second file of package \<open>channels\<close> declares the same names for a channel on
  the single-account fields of the configuration. Its definitions carry the suffix
  \<open>_single\<close>. \<open>imapClient\<close> is the one connection, nil before the first dial.
\<close>

record EmailChannel_single = BaseChannel +
  config_single :: EmailConfig
  imapClient :: "Client option"
  manualCheck_single :: "bool list"
  pollLoops_single :: nat

definition NewEmailChannel_single ::
  "EmailConfig \<Rightarrow> MessageBus \<Rightarrow> EmailChannel_single \<times> error option" where
  "NewEmailChannel_single cfg b =
     (let base = NewBaseChannel ''email'' b (AllowFrom cfg)
      in (\<lparr>name = name base, running = running base, allowList = allowList base,
           bus = bus base,
           config_single = cfg, imapClient = None, manualCheck_single = [],
           pollLoops_single = 0\<rparr>, None))"


definition Stop_single :: "EmailChannel_single \<Rightarrow> error option \<times> EmailChannel_single" where
  "Stop_single c =
     (let c1 = setRunning False c
      in (None, c1\<lparr>imapClient := map_option Logout (imapClient c1)\<rparr>))"

definition CheckNow_single :: "EmailChannel_single \<Rightarrow> EmailChannel_single" where
  "CheckNow_single c =
     (if length (manualCheck_single c) < 1
      then c\<lparr>manualCheck_single := manualCheck_single c @ [True]\<rparr>
      else c)"

definition connectIMAP ::
  "Network \<Rightarrow> EmailChannel_single \<Rightarrow> error option \<times> EmailChannel_single" where
  "connectIMAP net c =
     (let addr = host_port (cfg_IMAPServer (config_single c)) (cfg_IMAPPort (config_single c))
      in case (if cfg_IMAPPort (config_single c) = 993 then DialTLS net addr
               else Dial net addr) of
           Inl err \<Rightarrow> (Some err, c\<lparr>imapClient := None\<rparr>)
         | Inr cl \<Rightarrow>
             (case Login cl (cfg_IMAPUser (config_single c))
                     (cfg_IMAPPassword (config_single c)) of
                (Some err, cl1) \<Rightarrow> (Some err, c\<lparr>imapClient := Some cl1\<rparr>)
              | (None, cl1) \<Rightarrow> (None, c\<lparr>imapClient := Some cl1\<rparr>)))"

text \<open>The loop over \<open>mr.NextPart()\<close>: the plain-text parts are appended.\<close>

fun extract_body_single :: "Part list \<Rightarrow> string \<Rightarrow> string" where
  "extract_body_single [] body = body"
| "extract_body_single (p # ps) body =
     (case Header p of
        InlineHeader contentType \<Rightarrow>
          (if contentType = ''text/plain'' then extract_body_single ps (body @ Body p)
           else extract_body_single ps body)
      | AttachmentHeader \<Rightarrow> extract_body_single ps body)"

text \<open>\<open>processMessage\<close> reads \<open>msg.Envelope.From\<close> without a nil check.\<close>

definition processMessage_single ::
  "EmailChannel_single \<Rightarrow> Message \<Rightarrow> panic + EmailChannel_single" where
  "processMessage_single c msg =
     (case Envelope msg of
        None \<Rightarrow> Inl NilDereference
      | Some env \<Rightarrow>
          (let sender = (case From env of
                           [] \<Rightarrow> ''unknown''
                         | from0 # _ \<Rightarrow> MailboxName from0 @ ''@'' @ HostName from0);
               subject = Subject env
           in if \<not> IsAllowed c sender then Inr c
              else (case Section msg of
                 NoSection \<Rightarrow> Inr c
               | NoReader \<Rightarrow> Inr c
               | Parts ps \<Rightarrow>
                   (let body0 = extract_body_single ps [];
                        body = (if body0 = []
                                then ''[Content could not be parsed or was empty]''
                                else body0);
                        text = ''Subject: '' @ subject @ [CHR 0x0A, CHR 0x0A] @ body;
                        chat = sender
                    in Inr (HandleMessage c sender chat text []
                              [''subject'' \<mapsto> subject, ''email'' \<mapsto> sender])))))"

text \<open>The loop over the fetched messages: no time filter; a \<open>Store\<close> called while the
  fetch has a message to deliver never returns.\<close>

fun checkMail_loop ::
  "Message list \<Rightarrow> EmailChannel_single \<Rightarrow> panic + EmailChannel_single outcome" where
  "checkMail_loop [] c = Inr (Returns c)"
| "checkMail_loop (msg # msgs) c =
     (case processMessage_single c msg of
        Inl p \<Rightarrow> Inl p
      | Inr c1 \<Rightarrow>
          (case imapClient c1 of
             None \<Rightarrow> Inl NilDereference
           | Some cl \<Rightarrow>
               if msgs \<noteq> [] then Inr (Blocks c1)
               else checkMail_loop msgs (c1\<lparr>imapClient := Some (snd (Store cl (Uid msg)))\<rparr>)))"

definition checkMail_connected ::
  "EmailChannel_single \<Rightarrow> Client \<Rightarrow> panic + EmailChannel_single outcome" where
  "checkMail_connected c cl =
     (case Select cl of
        (Inl err, cl1) \<Rightarrow> Inr (Returns (c\<lparr>imapClient := None\<rparr>))
      | (Inr messages, cl1) \<Rightarrow>
          if messages = 0 then Inr (Returns (c\<lparr>imapClient := Some cl1\<rparr>))
          else (case Search cl1 of
             (Inl err, cl2) \<Rightarrow> Inr (Returns (c\<lparr>imapClient := Some cl2\<rparr>))
           | (Inr uids, cl2) \<Rightarrow>
               if length uids = 0 then Inr (Returns (c\<lparr>imapClient := Some cl2\<rparr>))
               else (let uids1 = (if length uids > maxEmails
                                  then drop (length uids - maxEmails) uids else uids);
                         (fetched, cl3) = Fetch cl2 uids1
                     in checkMail_loop fetched (c\<lparr>imapClient := Some cl3\<rparr>))))"

text \<open>\<open>checkMail\<close>: the dial when there is no live connection, then the poll
  (\<open>checkMail_connected\<close> is the function from \<open>Select\<close> on).\<close>

definition checkMail ::
  "Network \<Rightarrow> EmailChannel_single \<Rightarrow> panic + EmailChannel_single outcome" where
  "checkMail net c =
     (if (case imapClient c of None \<Rightarrow> True | Some cl \<Rightarrow> State cl = LogoutState)
      then (case connectIMAP net c of
              (Some err, c1) \<Rightarrow> Inr (Returns c1)
            | (None, c1) \<Rightarrow>
                (case imapClient c1 of
                   None \<Rightarrow> Inl NilDereference
                 | Some cl \<Rightarrow> checkMail_connected c1 cl))
      else (case imapClient c of
              None \<Rightarrow> Inl NilDereference
            | Some cl \<Rightarrow> checkMail_connected c cl))"

text \<open>One turn of the \<open>select\<close> of this file's \<open>pollLoop\<close>, which has no stop
  channel; a panic of the poll ends the goroutine.\<close>

definition pollLoop_select_single ::
  "Network \<Rightarrow> poll_event \<Rightarrow> EmailChannel_single \<Rightarrow>
     (panic + poll_status \<times> EmailChannel_single) option" where
  "pollLoop_select_single net ev c =
     (case ev of
        CtxDone \<Rightarrow> Some (Inr (Returned, c))
      | StopClosed \<Rightarrow> None
      | Tick \<Rightarrow>
          Some (case checkMail net c of
                  Inl p \<Rightarrow> Inl p
                | Inr (Returns c1) \<Rightarrow> Inr (Polling, c1)
                | Inr (Blocks c1) \<Rightarrow> Inr (Blocked, c1))
      | ManualCheck \<Rightarrow>
          (case manualCheck_single c of
             [] \<Rightarrow> None
           | v # rest \<Rightarrow>
               Some (case checkMail net (c\<lparr>manualCheck_single := rest\<rparr>) of
                       Inl p \<Rightarrow> Inl p
                     | Inr (Returns c1) \<Rightarrow> Inr (Polling, c1)
                     | Inr (Blocks c1) \<Rightarrow> Inr (Blocked, c1))))"

definition Send_single ::
  "Network \<Rightarrow> EmailChannel_single \<Rightarrow> OutboundMessage \<Rightarrow>
     error option \<times> EmailChannel_single \<times> smtp_step list" where
  "Send_single net c msg =
     (if TrimSpace (Content msg) = ''CMD:CHECK'' then (None, CheckNow_single c, [])
      else (let (r, tried) =
                  smtp_session net (cfg_SMTPServer (config_single c))
                    (cfg_SMTPPort (config_single c)) (cfg_SMTPUser (config_single c))
                    (cfg_SMTPPassword (config_single c)) msg
            in (r, c, tried)))"

section \<open>Notions used in the properties\<close>

text \<open>The fetched messages that pass the time filter: \<open>clock k\<close> is the reading
  taken for the message at position \<open>k\<close>.\<close>

definition kept :: "(nat \<Rightarrow> time) \<Rightarrow> Message list \<Rightarrow> Message list" where
  "kept clock msgs = map snd (filter (\<lambda>(k, m). \<not> too_old (clock k) m) (enumerate 0 msgs))"

text \<open>The sequence numbers one poll fetches: the last \<open>maxEmails\<close> of the unseen ones.\<close>

definition working_set :: "Message list \<Rightarrow> nat list" where
  "working_set inbox = drop (length (unseen inbox) - maxEmails) (unseen inbox)"

text \<open>The server answers \<open>Select\<close> and \<open>Search\<close> without an error.\<close>

definition answers :: "Client \<Rightarrow> bool" where
  "answers cl =
     ((State cl = AuthenticatedState \<or> State cl = SelectedState)
      \<and> select_err cl = None \<and> search_err cl = None)"

text \<open>The inbox after the fetch of a poll, before the first store.\<close>

definition fetched_inbox :: "Client \<Rightarrow> Message list" where
  "fetched_inbox cl =
     (if answers cl \<and> seen_on_fetch cl
      then foldl mark_seen (Inbox cl) (working_set (Inbox cl))
      else Inbox cl)"

text \<open>The messages the fetch of one poll delivers, in order.\<close>

definition fetched :: "Client \<Rightarrow> Message list" where
  "fetched cl =
     (if answers cl then map (\<lambda>n. Inbox cl ! (n - 1)) (working_set (Inbox cl)) else [])"

text \<open>The fetched messages that pass the time filter of a poll with several
  accounts.\<close>

definition polled :: "(nat \<Rightarrow> time) \<Rightarrow> Client \<Rightarrow> Message list" where
  "polled clock cl = kept clock (fetched cl)"

text \<open>No message that passes the time filter is followed by another message of the
  fetch: the store for it is called when the fetch has delivered everything.\<close>

fun runs_to_end :: "(nat \<Rightarrow> time) \<Rightarrow> Message list \<Rightarrow> bool" where
  "runs_to_end clock [] = True"
| "runs_to_end clock (msg # msgs) =
     ((too_old (clock 0) msg \<or> msgs = []) \<and> runs_to_end (\<lambda>k. clock (Suc k)) msgs)"


section \<open>Example values\<close>

text \<open>Inputs at which the properties below are evaluated: a network where every
  dial and every SMTP step fails, a configuration without accounts, an empty bus, and the
  message the mail-check tool publishes.\<close>

definition offline :: Network where
  "offline = \<lparr>DialTLS = (\<lambda>addr. Inl (TransportError ''dial'')),
              Dial = (\<lambda>addr. Inl (TransportError ''dial'')),
              smtp = (\<lambda>step. Some (TransportError ''smtp'')),
              ehlo = None, ehlo_tls = []\<rparr>"

definition no_accounts :: EmailConfig where
  "no_accounts = \<lparr>Accounts = [], AllowFrom = [], ForwardTo = [], PollInterval = 60,
     cfg_IMAPServer = [], cfg_IMAPPort = 0, cfg_IMAPUser = [], cfg_IMAPPassword = [],
     cfg_SMTPServer = [], cfg_SMTPPort = 0, cfg_SMTPUser = [], cfg_SMTPPassword = []\<rparr>"

definition empty_bus :: MessageBus where
  "empty_bus = \<lparr>inbound = [], outbound = []\<rparr>"

definition check_command :: OutboundMessage where
  "check_command = \<lparr>Channel = ''email'', ChatID = ''system'', Content = ''CMD:CHECK''\<rparr>"

definition bot_account :: EmailAccountConfig where
  "bot_account = \<lparr>Email = ''bot@example.org'',
     IMAPServer = ''imap.example.org'', IMAPPort = 993,
     IMAPUser = ''bot@example.org'', IMAPPassword = ''secret'',
     SMTPServer = ''smtp.example.org'', SMTPPort = 465,
     SMTPUser = ''bot@example.org'', SMTPPassword = ''secret''\<rparr>"

definition one_account :: EmailConfig where
  "one_account = no_accounts\<lparr>Accounts := [bot_account], AllowFrom := [''alice@example.org'']\<rparr>"

definition reply :: OutboundMessage where
  "reply = \<lparr>Channel = ''email'', ChatID = ''alice@example.org'', Content = ''hello''\<rparr>"

definition rcpt_refused :: Network where
  "rcpt_refused = offline\<lparr>smtp :=
     (\<lambda>step. case step of Rcpt r \<Rightarrow> Some (TransportError ''550 no such user'') | _ \<Rightarrow> None)\<rparr>"

definition single_account :: EmailConfig where
  "single_account = no_accounts\<lparr>AllowFrom := [''alice@example.org''],
     cfg_IMAPServer := ''imap.example.org'', cfg_IMAPPort := 993,
     cfg_IMAPUser := ''bot@example.org'', cfg_IMAPPassword := ''secret'',
     cfg_SMTPServer := ''smtp.example.org'', cfg_SMTPPort := 587,
     cfg_SMTPUser := ''bot@example.org'', cfg_SMTPPassword := ''secret''\<rparr>"

definition example_mail :: "nat \<Rightarrow> string \<Rightarrow> string \<Rightarrow> time \<Rightarrow> string \<Rightarrow> Part list \<Rightarrow> Message" where
  "example_mail uid mailbox host date subject parts =
     \<lparr>Uid = uid,
      Envelope = Some \<lparr>Date = date, Subject = subject,
                       From = [\<lparr>MailboxName = mailbox, HostName = host\<rparr>]\<rparr>,
      Seen = False,
      Section = Parts parts\<rparr>"



definition calendar_mail :: Message where
  "calendar_mail = example_mail 1 ''alice'' ''example.org'' 0 ''Invitation''
     [\<lparr>Header = InlineHeader ''text/calendar'', Body = ''BEGIN:VCALENDAR''\<rparr>]"

definition connection :: "Message list \<Rightarrow> Client" where
  "connection inbox =
     \<lparr>State = AuthenticatedState, Inbox = inbox, login_err = None, select_err = None,
      search_err = None, store_err = (\<lambda>n. None), seen_on_fetch = False, Sent = []\<rparr>"

definition plain_hello :: "Part list" where
  "plain_hello = [\<lparr>Header = InlineHeader ''text/plain'', Body = ''Hello''\<rparr>]"

definition mallory_mail :: Message where
  "mallory_mail = example_mail 1 ''mallory'' ''example.net'' 0 ''Offer'' plain_hello"


definition fifteen :: "Message list" where
  "fifteen = map (\<lambda>n. example_mail n ''alice'' ''example.org'' 0 ''Hi'' plain_hello) [1 ..< 16]"


definition connected_single :: "Message list \<Rightarrow> EmailChannel_single" where
  "connected_single inbox =
     (fst (NewEmailChannel_single single_account empty_bus))\<lparr>imapClient := Some (connection inbox)\<rparr>"




text \<open>Two SMTP servers on which every step succeeds: a submission server that announces
  \<open>STARTTLS\<close>, and \<open>AUTH\<close> after the upgrade; and a relay on the local host that
  announces \<open>AUTH\<close> and no \<open>STARTTLS\<close>.\<close>

definition submission :: Network where
  "submission = offline\<lparr>smtp := (\<lambda>step. None),
     ehlo := Some [''PIPELINING'', ''STARTTLS''], ehlo_tls := [''PIPELINING'', ''AUTH'']\<rparr>"

definition local_relay :: Network where
  "local_relay = offline\<lparr>smtp := (\<lambda>step. None), ehlo := Some [''AUTH''], ehlo_tls := []\<rparr>"

definition local_account :: EmailConfig where
  "local_account = single_account\<lparr>cfg_SMTPServer := ''localhost'', cfg_SMTPPort := 1025\<rparr>"

section \<open>Properties\<close>

subsection \<open>Auxiliary facts\<close>

lemma TrimSpace_command: "TrimSpace ''CMD:CHECK'' = ''CMD:CHECK''"
  by code_simp

lemma TrimSpace_hello: "TrimSpace ''hello'' = ''hello''"
  by code_simp

lemma attempt_result:
  "fst (attempt net ss)
     = (case find (\<lambda>s. smtp net s \<noteq> None) ss of None \<Rightarrow> None | Some s \<Rightarrow> smtp net s)"
  by (induction ss) (auto split: option.splits prod.splits)

lemma attempt_tried:
  "snd (attempt net ss)
     = takeWhile (\<lambda>s. smtp net s = None) ss @ take 1 (dropWhile (\<lambda>s. smtp net s = None) ss)"
  by (induction ss) (auto split: option.splits prod.splits)

lemma attempt_subset: "set (snd (attempt net ss)) \<subseteq> set ss"
  by (induction ss) (auto split: option.splits prod.splits)

lemma attempt_distinct: "distinct ss \<Longrightarrow> distinct (snd (attempt net ss))"
proof (induction ss)
  case Nil
  show ?case by simp
next
  case (Cons s ss)
  then show ?case
    using attempt_subset [of net ss] by (auto split: option.splits prod.splits)
qed

lemma attempt_pair:
  assumes "attempt net ss = (r, tried)"
  shows "set tried \<subseteq> set ss"
    and "distinct ss \<Longrightarrow> distinct tried"
    and "\<forall>s\<in>set (butlast tried). smtp net s = None"
    and "r = None \<Longrightarrow> tried = ss \<and> (\<forall>s\<in>set ss. smtp net s = None)"
    and "r = Some e \<Longrightarrow> tried \<noteq> [] \<and> smtp net (last tried) = Some e"
    and "ss \<noteq> [] \<Longrightarrow> tried \<noteq> [] \<and> hd tried = hd ss"
proof -
  show "set tried \<subseteq> set ss"
    using attempt_subset [of net ss] assms by simp
  show "distinct ss \<Longrightarrow> distinct tried"
    using attempt_distinct [of ss net] assms by simp
  show "\<forall>s\<in>set (butlast tried). smtp net s = None"
    using assms
  proof (induction ss arbitrary: r tried)
    case Nil
    then show ?case by simp
  next
    case (Cons s ss)
    then show ?case
      by (cases "attempt net ss") (auto split: option.splits if_splits)
  qed
  show "r = None \<Longrightarrow> tried = ss \<and> (\<forall>s\<in>set ss. smtp net s = None)"
    using assms
  proof (induction ss arbitrary: tried)
    case Nil
    then show ?case by simp
  next
    case (Cons s ss)
    then show ?case
      by (cases "attempt net ss") (auto split: option.splits)
  qed
  show "r = Some e \<Longrightarrow> tried \<noteq> [] \<and> smtp net (last tried) = Some e"
    using assms
  proof (induction ss arbitrary: tried)
    case Nil
    then show ?case by simp
  next
    case (Cons s ss)
    then show ?case
      by (cases "attempt net ss") (auto split: option.splits if_splits)
  qed
  show "ss \<noteq> [] \<Longrightarrow> tried \<noteq> [] \<and> hd tried = hd ss"
    using assms by (cases ss; cases "attempt net (tl ss)") (auto split: option.splits)
qed

lemma SendMail_plain:
  assumes "SendMail net addr user password host sender [rcpt] msg = (r, tried)"
  shows "set tried \<subseteq> {PlainDial addr, Hello, StartTLS host, Auth user password host, Mail sender,
                       Rcpt rcpt, Data, Write msg, Close, Quit, ConnClose}"
    and "tried \<noteq> [] \<longrightarrow> hd tried = PlainDial addr"
    and "distinct tried"
  using assms
  by (auto simp: SendMail_def Let_def split: option.splits prod.splits if_splits
      dest: attempt_pair(1,2))

lemma SendMail_upgrade:
  assumes "SendMail net addr user password host sender [rcpt] msg = (r, tried)"
  shows "StartTLS host \<in> set tried
     = (validateLine sender = None \<and> validateLine rcpt = None
        \<and> smtp net (PlainDial addr) = None \<and> smtp net Hello = None
        \<and> (\<exists>ext. ehlo net = Some ext \<and> ''STARTTLS'' \<in> set ext))"
    and "StartTLS host \<in> set tried \<longrightarrow> take 3 tried = [PlainDial addr, Hello, StartTLS host]"
  using assms
  by (auto simp: SendMail_def Let_def split: option.splits prod.splits if_splits
      dest: attempt_pair(1))

lemma SendMail_steps:
  assumes "SendMail net addr user password host sender [rcpt] msg = (r, tried)"
  shows "\<exists>steps closing. tried = steps @ closing \<and> (closing = [] \<or> closing = [ConnClose])
      \<and> ConnClose \<notin> set steps
      \<and> (\<forall>s\<in>set (butlast steps). smtp net s = None)
      \<and> (r = None \<longrightarrow> (\<forall>s\<in>set steps. smtp net s = None)
            \<and> {Mail sender, Rcpt rcpt, Data, Write msg, Close, Quit} \<subseteq> set steps)
      \<and> (\<forall>e. r = Some e \<longrightarrow>
            (\<exists>l. e = LibraryError l) \<or> (steps \<noteq> [] \<and> smtp net (last steps) = Some e))"
proof -
  let ?P = "\<lambda>steps closing. tried = steps @ closing \<and> (closing = [] \<or> closing = [ConnClose])
      \<and> ConnClose \<notin> set steps
      \<and> (\<forall>s\<in>set (butlast steps). smtp net s = None)
      \<and> (r = None \<longrightarrow> (\<forall>s\<in>set steps. smtp net s = None)
            \<and> {Mail sender, Rcpt rcpt, Data, Write msg, Close, Quit} \<subseteq> set steps)
      \<and> (\<forall>e. r = Some e \<longrightarrow>
            (\<exists>l. e = LibraryError l) \<or> (steps \<noteq> [] \<and> smtp net (last steps) = Some e))"
  have run: "?P (opened @ t) [ConnClose]"
    if a: "attempt net cmds = (r, t)" and o: "\<forall>s\<in>set opened. smtp net s = None"
      and c: "ConnClose \<notin> set opened \<union> set cmds"
      and m: "{Mail sender, Rcpt rcpt, Data, Write msg, Close, Quit} \<subseteq> set cmds"
      and ne: "cmds \<noteq> []"
      and tr: "tried = opened @ t @ [ConnClose]"
    for opened cmds t
  proof -
    have t: "t \<noteq> []" using attempt_pair(6) [OF a ne] by simp
    have b: "butlast (opened @ t) = opened @ butlast t"
      using t by (simp add: butlast_append)
    have l: "last (opened @ t) = last t"
      using t by simp
    have s: "set t \<subseteq> set cmds" using attempt_pair(1) [OF a] .
    show ?thesis
      using tr o c m s t attempt_pair(3) [OF a] attempt_pair(4) [OF a] attempt_pair(5) [OF a]
      unfolding b l by auto
  qed
  show ?thesis
  proof (cases "find (\<lambda>line. validateLine line \<noteq> None) [sender, rcpt]")
    case (Some line)
    then have "validateLine line \<noteq> None"
      by (auto split: if_splits)
    then obtain l where v: "validateLine line = Some (LibraryError l)"
      by (auto simp: validateLine_def split: if_splits)
    have "r = Some (LibraryError l) \<and> tried = []"
      using assms Some v by (simp add: SendMail_def del: find.simps)
    then have "?P [] []"
      by simp
    then show ?thesis by blast
  next
    case valid: None
    show ?thesis
    proof (cases "smtp net (PlainDial addr)")
      case (Some e)
      have "r = Some e \<and> tried = [PlainDial addr]"
        using assms valid Some by (simp add: SendMail_def del: find.simps)
      then have "?P [PlainDial addr] []"
        using Some by simp
      then show ?thesis by blast
    next
      case dial: None
      show ?thesis
      proof (cases "smtp net Hello")
        case (Some e)
        have "r = Some e \<and> tried = [PlainDial addr, Hello, ConnClose]"
          using assms valid dial Some by (simp add: SendMail_def del: find.simps)
        then have "?P [PlainDial addr, Hello] [ConnClose]"
          using Some dial by simp
        then show ?thesis by blast
      next
        case hello: None
        let ?up = "case ehlo net of None \<Rightarrow> False | Some ext \<Rightarrow> ''STARTTLS'' \<in> set ext"
        let ?opened = "[PlainDial addr, Hello] @ (if ?up then [StartTLS host] else [])"
        let ?ext = "if ?up then Some (ehlo_tls net) else ehlo net"
        let ?cmds = "[Rcpt rcpt, Data, Write msg, Close, Quit]"
        show ?thesis
        proof (cases "if ?up then smtp net (StartTLS host) else None")
          case (Some e)
          then have u: "?up" and f: "smtp net (StartTLS host) = Some e"
            by (simp_all split: if_splits)
          have "r = Some e \<and> tried = [PlainDial addr, Hello, StartTLS host, ConnClose]"
            using assms valid dial hello u f
            by (simp add: SendMail_def Let_def del: find.simps)
          then have "?P [PlainDial addr, Hello, StartTLS host] [ConnClose]"
            using f dial hello by simp
          then show ?thesis by blast
        next
          case tls: None
          have o: "\<forall>s\<in>set ?opened. smtp net s = None"
            using dial hello tls by (auto split: if_splits)
          show ?thesis
          proof (cases ?ext)
            case None
            obtain t where a: "attempt net (Mail sender # ?cmds) = (r, t)"
              and tr: "tried = ?opened @ t @ [ConnClose]"
              using assms valid dial hello tls None
              by (auto simp: SendMail_def Let_def split: prod.splits if_splits)
            have "?P (?opened @ t) [ConnClose]"
              using a o _ _ _ tr by (rule run) auto
            then show ?thesis by blast
          next
            case (Some announced)
            show ?thesis
            proof (cases "''AUTH'' \<in> set announced")
              case False
              have "r = Some (LibraryError (''smtp: server doesn'' @ [CHR 0x27] @ ''t support AUTH''))
                  \<and> tried = ?opened @ [ConnClose]"
                using assms valid dial hello tls Some False
                by (simp add: SendMail_def Let_def del: find.simps split: if_splits)
              then have "?P ?opened [ConnClose]"
                using o by (auto simp: butlast_append dest: in_set_butlastD split: if_splits)
              then show ?thesis by blast
            next
              case True
              obtain t where a: "attempt net (Auth user password host # Mail sender # ?cmds) = (r, t)"
                and tr: "tried = ?opened @ t @ [ConnClose]"
                using assms valid dial hello tls Some True
                by (auto simp: SendMail_def Let_def split: prod.splits if_splits)
              have "?P (?opened @ t) [ConnClose]"
                using a o _ _ _ tr by (rule run) auto
              then show ?thesis by blast
            qed
          qed
        qed
      qed
    qed
  qed
qed

lemma processMessage_frame:
  "processMessage c msg a = c\<lparr>bus := bus (processMessage c msg a)\<rparr>"
  by (simp add: processMessage_def HandleMessage_def Let_def split: option.splits list.splits BodySection.splits)

lemma checkAccountMail_loop_frame:
  "fst (state (checkAccountMail_loop clock a msgs (c, cl)))
     = c\<lparr>bus := bus (fst (state (checkAccountMail_loop clock a msgs (c, cl))))\<rparr>"
proof (induction msgs arbitrary: clock c cl)
  case Nil
  show ?case by simp
next
  case (Cons msg msgs)
  show ?case
  proof (cases "too_old (clock 0) msg")
    case True
    then show ?thesis using Cons.IH [of "\<lambda>k. clock (Suc k)" c cl] by simp
  next
    case False
    have p: "processMessage c msg a = c\<lparr>bus := bus (processMessage c msg a)\<rparr>"
      by (rule processMessage_frame)
    show ?thesis
    proof (cases "msgs = []")
      case True
      then show ?thesis using False p by (simp add: Let_def)
    next
      case False
      then show ?thesis using \<open>\<not> too_old (clock 0) msg\<close> p by (simp add: Let_def)
    qed
  qed
qed

lemma checkAccountMail_frame:
  "fst (state (checkAccountMail clock c cl acc))
     = c\<lparr>bus := bus (fst (state (checkAccountMail clock c cl acc)))\<rparr>"
  unfolding checkAccountMail_def
  by (auto simp: Let_def split: prod.splits sum.splits intro: checkAccountMail_loop_frame)

lemma checkAccountMail_manualCheck:
  "manualCheck (fst (state (checkAccountMail clock c cl acc))) = manualCheck c"
proof -
  have "manualCheck (fst (state (checkAccountMail clock c cl acc)))
      = manualCheck (c\<lparr>bus := bus (fst (state (checkAccountMail clock c cl acc)))\<rparr>)"
    by (rule arg_cong [OF checkAccountMail_frame])
  then show ?thesis by simp
qed

lemma checkAllMail_loop_manualCheck:
  "manualCheck (state (checkAllMail_loop clock accs c)) = manualCheck c"
proof (induction accs arbitrary: c)
  case Nil
  show ?case by simp
next
  case (Cons acc accs)
  show ?case
  proof (cases "imapClients c (Email acc)")
    case None
    then show ?thesis using Cons.IH by simp
  next
    case (Some client)
    show ?thesis
    proof (cases "State client = LogoutState")
      case True
      then show ?thesis using Some Cons.IH by simp
    next
      case False
      have m: "manualCheck (fst (state (checkAccountMail (clock (Email acc)) c client acc)))
          = manualCheck c"
        by (rule checkAccountMail_manualCheck)
      show ?thesis
      proof (cases "checkAccountMail (clock (Email acc)) c client acc")
        case (Returns r)
        then show ?thesis using Some False m Cons.IH by (cases r) simp
      next
        case (Blocks r)
        then show ?thesis using Some False m by (cases r) simp
      qed
    qed
  qed
qed

lemma checkAllMail_manualCheck:
  "manualCheck (state (checkAllMail net clock c)) = manualCheck c"
  by (simp add: checkAllMail_def Let_def checkAllMail_loop_manualCheck connectAllIMAP_def)

lemma CheckNow_twice: "CheckNow (CheckNow c) = CheckNow c"
  by (simp add: CheckNow_def)

lemma CheckNow_single_twice: "CheckNow_single (CheckNow_single c) = CheckNow_single c"
  by (simp add: CheckNow_single_def)

lemma CheckNow_many: "(CheckNow ^^ Suc n) c = CheckNow c"
  by (induction n) (simp_all add: CheckNow_twice)

lemma CheckNow_single_many: "(CheckNow_single ^^ Suc n) c = CheckNow_single c"
  by (induction n) (simp_all add: CheckNow_single_twice)

lemma processMessage_single_manualCheck:
  "processMessage_single c msg = Inr c1 \<Longrightarrow> manualCheck_single c1 = manualCheck_single c"
  by (auto simp: processMessage_single_def HandleMessage_def Let_def
      split: option.splits list.splits BodySection.splits if_splits)

lemma checkMail_loop_manualCheck:
  "checkMail_loop msgs c = Inr r \<Longrightarrow> manualCheck_single (state r) = manualCheck_single c"
proof (induction msgs arbitrary: c)
  case Nil
  then show ?case by auto
next
  case (Cons msg msgs)
  from Cons.prems obtain c1 cl where p: "processMessage_single c msg = Inr c1"
    and cl: "imapClient c1 = Some cl"
    by (auto split: sum.splits option.splits)
  have m: "manualCheck_single c1 = manualCheck_single c"
    using p by (rule processMessage_single_manualCheck)
  show ?case
  proof (cases "msgs = []")
    case True
    then show ?thesis using Cons.prems p cl m by auto
  next
    case False
    then show ?thesis using Cons.prems p cl m by auto
  qed
qed

lemma checkMail_connected_manualCheck:
  "checkMail_connected c cl = Inr r \<Longrightarrow> manualCheck_single (state r) = manualCheck_single c"
  unfolding checkMail_connected_def
  by (auto simp: Let_def split: prod.splits sum.splits if_splits dest: checkMail_loop_manualCheck)

lemma connectIMAP_manualCheck:
  "manualCheck_single (snd (connectIMAP net c)) = manualCheck_single c"
  by (auto simp: connectIMAP_def Let_def split: sum.splits prod.splits option.splits)

lemma checkMail_manualCheck:
  "checkMail net c = Inr r \<Longrightarrow> manualCheck_single (state r) = manualCheck_single c"
  unfolding checkMail_def
  using connectIMAP_manualCheck [of net c]
  by (auto split: prod.splits option.splits if_splits dest: checkMail_connected_manualCheck)




lemma processMessage_rejected:
  "Envelope msg = Some env \<Longrightarrow> From env = from0 # others \<Longrightarrow>
   \<not> IsAllowed c (MailboxName from0 @ ''@'' @ HostName from0) \<Longrightarrow>
   processMessage c msg a = c"
  by (simp add: processMessage_def)

lemma extract_body_append:
  "extract_body (ps @ qs) body = extract_body qs (extract_body ps body)"
  by (induction ps arbitrary: body) (auto split: PartHeader.splits)

lemma extract_body_no_plain:
  "\<forall>p\<in>set ps. Header p \<noteq> InlineHeader ''text/plain'' \<Longrightarrow>
   extract_body ps body
     = (if body \<noteq> [] then body
        else case find (\<lambda>p. Header p = InlineHeader ''text/html'' \<and> Body p \<noteq> []) ps of
               None \<Rightarrow> []
             | Some p \<Rightarrow> Body p)"
proof (induction ps arbitrary: body)
  case Nil
  show ?case by simp
next
  case (Cons p ps)
  then show ?case
    by (cases "Header p") auto
qed

lemma extract_body_single_concat:
  "extract_body_single ps body
     = body @ concat (map Body (filter (\<lambda>p. Header p = InlineHeader ''text/plain'') ps))"
  by (induction ps arbitrary: body) (auto split: PartHeader.splits)




text \<open>The loop of a poll, on the messages that pass the time filter: it returns what a
  fold over them makes, or it blocks after the first of them.\<close>

lemma kept_Nil: "kept clock [] = []"
  by (simp add: kept_def)

lemma kept_Cons:
  "kept clock (m # ms)
     = (if too_old (clock 0) m then [] else [m]) @ kept (\<lambda>k. clock (Suc k)) ms"
proof -
  have "map snd (filter (\<lambda>(k, m). \<not> too_old (clock k) m) (enumerate (Suc 0) ms))
      = map snd (filter (\<lambda>(k, m). \<not> too_old (clock (Suc k)) m) (enumerate 0 ms))"
    by (simp add: enumerate_Suc_eq filter_map comp_def case_prod_unfold)
  then show ?thesis by (simp add: kept_def)
qed

lemma kept_member:
  "m \<in> set (kept clock msgs) \<Longrightarrow> \<exists>k<length msgs. msgs ! k = m \<and> \<not> too_old (clock k) m"
  by (auto simp: kept_def in_set_enumerate_eq)

lemma loop_outcome:
  "checkAccountMail_loop clock a msgs (c, cl)
     = (if runs_to_end clock msgs
        then Returns (foldl (\<lambda>c m. processMessage c m a) c (kept clock msgs),
                      foldl (\<lambda>cl m. snd (Store cl (Uid m))) cl (kept clock msgs))
        else Blocks (processMessage c (hd (kept clock msgs)) a, cl))"
proof (induction msgs arbitrary: clock c cl)
  case Nil
  show ?case by (simp add: kept_Nil)
next
  case (Cons m ms)
  show ?case
  proof (cases "too_old (clock 0) m")
    case True
    then show ?thesis by (simp add: kept_Cons Cons.IH)
  next
    case False
    then show ?thesis
      by (cases "ms = []") (simp_all add: kept_Cons kept_Nil Let_def)
  qed
qed


text \<open>What marking and storing do to the inbox.\<close>

lemma mark_seen_length: "length (mark_seen inbox n) = length inbox"
  by (simp add: mark_seen_def)

lemma mark_seen_Seen:
  "i < length inbox \<Longrightarrow> Seen (mark_seen inbox n ! i) = (Seen (inbox ! i) \<or> n = Suc i)"
  by (auto simp: mark_seen_def nth_list_update)

lemma marks_length: "length (foldl mark_seen inbox ns) = length inbox"
  by (induction ns arbitrary: inbox) (simp_all add: mark_seen_length)

lemma marks_Seen:
  "i < length inbox \<Longrightarrow>
   Seen (foldl mark_seen inbox ns ! i) = (Seen (inbox ! i) \<or> Suc i \<in> set ns)"
proof (induction ns arbitrary: inbox)
  case Nil
  show ?case by simp
next
  case (Cons n ns)
  have "i < length (mark_seen inbox n)"
    using Cons.prems by (simp add: mark_seen_length)
  from Cons.IH [OF this] show ?case
    using Cons.prems by (auto simp: mark_seen_Seen)
qed

lemma Store_fields:
  "Sent (snd (Store cl n)) = Sent cl @ [CmdStore n]"
  "store_err (snd (Store cl n)) = store_err cl"
  "State (snd (Store cl n)) = State cl"
  "length (Inbox (snd (Store cl n))) = length (Inbox cl)"
  by (simp_all add: Store_def Let_def mark_seen_length split: option.splits)

lemma Store_Inbox:
  "Inbox (snd (Store cl n))
     = (case store_err cl n of Some e \<Rightarrow> Inbox cl | None \<Rightarrow> mark_seen (Inbox cl) n)"
  by (simp add: Store_def Let_def split: option.splits)

lemma Store_Seen:
  "i < length (Inbox cl) \<Longrightarrow>
   Seen (Inbox (snd (Store cl n)) ! i)
     = (Seen (Inbox cl ! i) \<or> (n = Suc i \<and> store_err cl n = None))"
  by (auto simp: Store_Inbox mark_seen_Seen split: option.splits)

lemma stores_fields:
  "Sent (foldl (\<lambda>cl m. snd (Store cl (Uid m))) cl ms) = Sent cl @ map (\<lambda>m. CmdStore (Uid m)) ms"
  "store_err (foldl (\<lambda>cl m. snd (Store cl (Uid m))) cl ms) = store_err cl"
  "State (foldl (\<lambda>cl m. snd (Store cl (Uid m))) cl ms) = State cl"
  "length (Inbox (foldl (\<lambda>cl m. snd (Store cl (Uid m))) cl ms)) = length (Inbox cl)"
  by (induction ms arbitrary: cl) (simp_all add: Store_fields)

lemma stores_Seen:
  "i < length (Inbox cl) \<Longrightarrow>
   Seen (Inbox (foldl (\<lambda>cl m. snd (Store cl (Uid m))) cl ms) ! i)
     = (Seen (Inbox cl ! i) \<or> (\<exists>m\<in>set ms. Uid m = Suc i \<and> store_err cl (Uid m) = None))"
proof (induction ms arbitrary: cl)
  case Nil
  show ?case by simp
next
  case (Cons m ms)
  have "i < length (Inbox (snd (Store cl (Uid m))))"
    using Cons.prems by (simp add: Store_fields)
  from Cons.IH [OF this] show ?case
    using Cons.prems by (auto simp: Store_fields Store_Seen)
qed

lemma stores_cong:
  "Inbox cl = Inbox cl' \<Longrightarrow> store_err cl = store_err cl' \<Longrightarrow>
   Inbox (foldl (\<lambda>cl m. snd (Store cl (Uid m))) cl ms)
     = Inbox (foldl (\<lambda>cl m. snd (Store cl (Uid m))) cl' ms)"
proof (induction ms arbitrary: cl cl')
  case Nil
  then show ?case by simp
next
  case (Cons m ms)
  have "Inbox (snd (Store cl (Uid m))) = Inbox (snd (Store cl' (Uid m)))"
    by (simp only: Store_Inbox Cons.prems)
  moreover have "store_err (snd (Store cl (Uid m))) = store_err (snd (Store cl' (Uid m)))"
    by (simp only: Store_fields Cons.prems)
  ultimately show ?case
    using Cons.IH [of "snd (Store cl (Uid m))" "snd (Store cl' (Uid m))"] by simp
qed

text \<open>The unseen sequence numbers and the working set.\<close>

lemma unseen_range:
  "n \<in> set (unseen inbox) \<Longrightarrow> 1 \<le> n \<and> n \<le> length inbox \<and> \<not> Seen (inbox ! (n - 1))"
  by (auto simp: unseen_def)

lemma unseen_Nil: "unseen [] = []"
  by (simp add: unseen_def)

lemma working_set_Nil: "unseen inbox = [] \<Longrightarrow> working_set inbox = []"
  by (simp add: working_set_def)

lemma working_set_subset: "set (working_set inbox) \<subseteq> set (unseen inbox)"
  by (auto simp: working_set_def dest: in_set_dropD)

lemma working_set_cap:
  "(if length (unseen inbox) > maxEmails
    then drop (length (unseen inbox) - maxEmails) (unseen inbox) else unseen inbox)
   = working_set inbox"
  by (simp add: working_set_def)

lemma working_set_fetch:
  "filter (\<lambda>n. Suc 0 \<le> n \<and> n \<le> length inbox) (working_set inbox) = working_set inbox"
  using working_set_subset [of inbox] unseen_range [of _ inbox]
  by (auto simp: filter_id_conv)

text \<open>The messages of a poll.\<close>

lemma fetched_Nil: "\<not> (answers cl \<and> unseen (Inbox cl) \<noteq> []) \<Longrightarrow> fetched cl = []"
  by (auto simp: fetched_def working_set_Nil)

lemma polled_Nil: "\<not> (answers cl \<and> unseen (Inbox cl) \<noteq> []) \<Longrightarrow> polled clock cl = []"
  by (simp add: polled_def fetched_Nil kept_Nil)

lemma polled_member:
  "m \<in> set (polled clock cl) \<Longrightarrow>
   \<exists>n\<in>set (working_set (Inbox cl)). m = Inbox cl ! (n - 1) \<and> (\<exists>k. \<not> too_old (clock k) m)"
proof -
  assume a: "m \<in> set (polled clock cl)"
  then have "m \<in> set (kept clock (map (\<lambda>n. Inbox cl ! (n - 1)) (working_set (Inbox cl))))"
    by (cases "answers cl") (simp_all add: polled_def fetched_def kept_Nil)
  from kept_member [OF this] obtain k where k: "k < length (working_set (Inbox cl))"
    and m: "Inbox cl ! (working_set (Inbox cl) ! k - 1) = m" and t: "\<not> too_old (clock k) m"
    by auto
  have "working_set (Inbox cl) ! k \<in> set (working_set (Inbox cl))"
    using k by simp
  then show ?thesis using m t by blast
qed

lemma polled_in_inbox:
  "m \<in> set (polled clock cl) \<Longrightarrow> \<exists>j<length (Inbox cl). m = Inbox cl ! j"
proof -
  assume "m \<in> set (polled clock cl)"
  then obtain n where n: "n \<in> set (working_set (Inbox cl))" and m: "m = Inbox cl ! (n - 1)"
    using polled_member by blast
  have "1 \<le> n \<and> n \<le> length (Inbox cl)"
    using n working_set_subset [of "Inbox cl"] unseen_range [of n "Inbox cl"] by blast
  then have "n - 1 < length (Inbox cl)" by arith
  then show ?thesis using m by blast
qed

lemma polled_by_position:
  assumes "\<forall>k<length (Inbox cl). Uid (Inbox cl ! k) = Suc k" and "i < length (Inbox cl)"
  shows "(\<exists>m\<in>set (polled clock cl). Uid m = Suc i \<and> P m)
     = (Inbox cl ! i \<in> set (polled clock cl) \<and> P (Inbox cl ! i))"
proof
  assume "\<exists>m\<in>set (polled clock cl). Uid m = Suc i \<and> P m"
  then obtain m where m: "m \<in> set (polled clock cl)" and u: "Uid m = Suc i" and p: "P m"
    by blast
  obtain j where j: "j < length (Inbox cl)" and mj: "m = Inbox cl ! j"
    using polled_in_inbox [OF m] by blast
  have "j = i" using assms(1) j mj u by auto
  then show "Inbox cl ! i \<in> set (polled clock cl) \<and> P (Inbox cl ! i)"
    using m mj p by simp
next
  assume "Inbox cl ! i \<in> set (polled clock cl) \<and> P (Inbox cl ! i)"
  then show "\<exists>m\<in>set (polled clock cl). Uid m = Suc i \<and> P m"
    using assms by auto
qed



lemma fetched_inbox_length: "length (fetched_inbox cl) = length (Inbox cl)"
  by (simp add: fetched_inbox_def marks_length)

lemma fetched_inbox_Seen:
  "i < length (Inbox cl) \<Longrightarrow>
   Seen (fetched_inbox cl ! i)
     = (Seen (Inbox cl ! i)
        \<or> (answers cl \<and> seen_on_fetch cl \<and> Suc i \<in> set (working_set (Inbox cl))))"
  by (auto simp: fetched_inbox_def marks_Seen)

text \<open>One poll of an account: without an answer or without unseen mail it returns
  with the channel and the inbox as they were; else it is the loop on the fetched
  messages.\<close>

lemma checkAccountMail_idle:
  assumes "\<not> (answers cl \<and> unseen (Inbox cl) \<noteq> [])"
  shows "\<exists>cl'. checkAccountMail clock c cl acc = Returns (c, cl') \<and> Inbox cl' = Inbox cl
           \<and> set (Sent cl') \<subseteq> set (Sent cl) \<union> {CmdSelect, CmdSearch, CmdLogout}"
  using assms
  by (auto simp: checkAccountMail_def Select_def Search_def Logout_def Let_def answers_def
      unseen_Nil split: option.splits)

lemma checkAccountMail_poll:
  assumes "answers cl" and "unseen (Inbox cl) \<noteq> []"
  shows "checkAccountMail clock c cl acc
     = checkAccountMail_loop clock (Email acc) (fetched cl)
         (c, cl\<lparr>State := SelectedState, Inbox := fetched_inbox cl,
                Sent := Sent cl @ [CmdSelect, CmdSearch, CmdFetch (working_set (Inbox cl))]\<rparr>)"
proof -
  have n: "Inbox cl \<noteq> []"
    using assms(2) by (auto simp: unseen_Nil)
  show ?thesis
    using assms n
    by (auto simp: checkAccountMail_def Select_def Search_def Fetch_def Let_def answers_def
        fetched_def fetched_inbox_def working_set_cap working_set_fetch)
qed

lemma checkAccountMail_runs:
  "runs_to_end clock (fetched cl) \<Longrightarrow> \<exists>r. checkAccountMail clock c cl acc = Returns r"
proof (cases "answers cl \<and> unseen (Inbox cl) \<noteq> []")
  case True
  assume "runs_to_end clock (fetched cl)"
  then show ?thesis
    using True by (simp add: checkAccountMail_poll loop_outcome)
next
  case False
  then show ?thesis using checkAccountMail_idle [OF False] by blast
qed

lemma checkAccountMail_returned:
  assumes "checkAccountMail clock c cl acc = Returns (c', cl')"
    and "answers cl" and "unseen (Inbox cl) \<noteq> []"
  shows "c' = foldl (\<lambda>c m. processMessage c m (Email acc)) c (polled clock cl)"
    and "cl' = foldl (\<lambda>cl m. snd (Store cl (Uid m)))
                 (cl\<lparr>State := SelectedState, Inbox := fetched_inbox cl,
                     Sent := Sent cl @ [CmdSelect, CmdSearch,
                                        CmdFetch (working_set (Inbox cl))]\<rparr>)
                 (polled clock cl)"
  using assms(1) unfolding checkAccountMail_poll [OF assms(2,3)] loop_outcome polled_def
  by (simp_all split: if_splits)

lemma checkAccountMail_channel:
  assumes "checkAccountMail clock c cl acc = Returns (c', cl')"
  shows "c' = foldl (\<lambda>c m. processMessage c m (Email acc)) c (polled clock cl)"
proof (cases "answers cl \<and> unseen (Inbox cl) \<noteq> []")
  case True
  then show ?thesis using checkAccountMail_returned(1) [OF assms] by blast
next
  case False
  then show ?thesis
    using checkAccountMail_idle [OF False, of clock c acc] assms by (auto simp: polled_Nil)
qed


lemma checkAccountMail_inbox:
  assumes "checkAccountMail clock c cl acc = Returns (c', cl')"
  shows "Inbox cl'
     = Inbox (foldl (\<lambda>cl m. snd (Store cl (Uid m))) (cl\<lparr>Inbox := fetched_inbox cl\<rparr>)
                (polled clock cl))"
proof (cases "answers cl \<and> unseen (Inbox cl) \<noteq> []")
  case True
  let ?cl3 = "cl\<lparr>State := SelectedState, Inbox := fetched_inbox cl,
                Sent := Sent cl @ [CmdSelect, CmdSearch, CmdFetch (working_set (Inbox cl))]\<rparr>"
  have r: "cl' = foldl (\<lambda>cl m. snd (Store cl (Uid m))) ?cl3 (polled clock cl)"
    using checkAccountMail_returned(2) [OF assms] True by blast
  have "Inbox (foldl (\<lambda>cl m. snd (Store cl (Uid m))) ?cl3 (polled clock cl))
      = Inbox (foldl (\<lambda>cl m. snd (Store cl (Uid m))) (cl\<lparr>Inbox := fetched_inbox cl\<rparr>)
                 (polled clock cl))"
    by (rule stores_cong) simp_all
  then show ?thesis
    unfolding r .
next
  case False
  have f: "fetched_inbox cl = Inbox cl"
    using False by (auto simp: fetched_inbox_def working_set_Nil)
  show ?thesis
    using checkAccountMail_idle [OF False, of clock c acc] assms
    by (auto simp: polled_Nil [OF False] f)
qed

lemma checkAccountMail_seen:
  assumes "checkAccountMail clock c cl acc = Returns (c', cl')" and "i < length (Inbox cl)"
  shows "Seen (Inbox cl' ! i)
     = (Seen (Inbox cl ! i)
        \<or> (answers cl \<and> seen_on_fetch cl \<and> Suc i \<in> set (working_set (Inbox cl)))
        \<or> (\<exists>m\<in>set (polled clock cl). Uid m = Suc i \<and> store_err cl (Uid m) = None))"
proof -
  have "i < length (Inbox (cl\<lparr>Inbox := fetched_inbox cl\<rparr>))"
    using assms(2) by (simp add: fetched_inbox_length)
  from stores_Seen [OF this, of "polled clock cl"] show ?thesis
    unfolding checkAccountMail_inbox [OF assms(1)]
    using assms(2) by (simp add: fetched_inbox_Seen)
qed

lemma checkAccountMail_commands:
  assumes "checkAccountMail clock c cl acc = Returns (c', cl')"
    and "answers cl" and "unseen (Inbox cl) \<noteq> []"
  shows "Sent cl'
     = Sent cl @ [CmdSelect, CmdSearch, CmdFetch (working_set (Inbox cl))]
       @ map (\<lambda>m. CmdStore (Uid m)) (polled clock cl)"
  unfolding checkAccountMail_returned(2) [OF assms] by (simp add: stores_fields)

subsection \<open>The claims\<close>

text \<open>
  C1, as the code has it, for a poll of the channel with several accounts that runs to
  its end, which it does when no fetched message that passes the time filter is followed
  by another fetched message. The loop calls \<open>Store\<close> for every fetched message that
  passes the time filter, after \<open>processMessage\<close> and whatever that did: the commands
  of a poll that fetches are the select, the search, the fetch and one store for each
  such message, and the channel is what \<open>processMessage\<close> makes of these messages.
  \<open>processMessage\<close> returns nothing, and it leaves the channel as it was when the
  allow-list rejects the sender, so a rejected message is stored as seen without being
  published. In a mailbox whose UIDs are the sequence numbers, on a server that sets no
  flag on a fetch and whose stores succeed, a message is seen after the poll if and only
  if it was seen before or was one of these messages.
\<close>

theorem seen_follows_time_filter:
  "(runs_to_end clock (fetched cl) \<longrightarrow> returns (checkAccountMail clock c cl acc))
   \<and> (checkAccountMail clock c cl acc = Returns (c', cl') \<longrightarrow>
        c' = foldl (\<lambda>c m. processMessage c m (Email acc)) c (polled clock cl)
        \<and> (answers cl \<and> unseen (Inbox cl) \<noteq> [] \<longrightarrow>
             Sent cl' = Sent cl @ [CmdSelect, CmdSearch, CmdFetch (working_set (Inbox cl))]
                        @ map (\<lambda>m. CmdStore (Uid m)) (polled clock cl))
        \<and> ((\<forall>k<length (Inbox cl). Uid (Inbox cl ! k) = Suc k) \<and> (\<forall>n. store_err cl n = None)
             \<and> \<not> seen_on_fetch cl \<and> i < length (Inbox cl) \<longrightarrow>
             Seen (Inbox cl' ! i)
               = (Seen (Inbox cl ! i) \<or> Inbox cl ! i \<in> set (polled clock cl))))
   \<and> (Envelope msg = Some env \<and> From env = from0 # others
        \<and> \<not> IsAllowed c (MailboxName from0 @ ''@'' @ HostName from0) \<longrightarrow>
        processMessage c msg (Email acc) = c)"
proof -
  have e: "runs_to_end clock (fetched cl) \<longrightarrow> returns (checkAccountMail clock c cl acc)"
    using checkAccountMail_runs [of clock cl c acc] by auto
  have p: "checkAccountMail clock c cl acc = Returns (c', cl') \<longrightarrow>
        c' = foldl (\<lambda>c m. processMessage c m (Email acc)) c (polled clock cl)
        \<and> (answers cl \<and> unseen (Inbox cl) \<noteq> [] \<longrightarrow>
             Sent cl' = Sent cl @ [CmdSelect, CmdSearch, CmdFetch (working_set (Inbox cl))]
                        @ map (\<lambda>m. CmdStore (Uid m)) (polled clock cl))
        \<and> ((\<forall>k<length (Inbox cl). Uid (Inbox cl ! k) = Suc k) \<and> (\<forall>n. store_err cl n = None)
             \<and> \<not> seen_on_fetch cl \<and> i < length (Inbox cl) \<longrightarrow>
             Seen (Inbox cl' ! i)
               = (Seen (Inbox cl ! i) \<or> Inbox cl ! i \<in> set (polled clock cl)))"
  proof
    assume r: "checkAccountMail clock c cl acc = Returns (c', cl')"
    have a: "c' = foldl (\<lambda>c m. processMessage c m (Email acc)) c (polled clock cl)"
      using checkAccountMail_channel [OF r] .
    have b: "answers cl \<and> unseen (Inbox cl) \<noteq> [] \<longrightarrow>
             Sent cl' = Sent cl @ [CmdSelect, CmdSearch, CmdFetch (working_set (Inbox cl))]
                        @ map (\<lambda>m. CmdStore (Uid m)) (polled clock cl)"
      using checkAccountMail_commands [OF r] by blast
    have s: "(\<forall>k<length (Inbox cl). Uid (Inbox cl ! k) = Suc k) \<and> (\<forall>n. store_err cl n = None)
             \<and> \<not> seen_on_fetch cl \<and> i < length (Inbox cl) \<longrightarrow>
             Seen (Inbox cl' ! i)
               = (Seen (Inbox cl ! i) \<or> Inbox cl ! i \<in> set (polled clock cl))"
    proof
      assume h: "(\<forall>k<length (Inbox cl). Uid (Inbox cl ! k) = Suc k)
          \<and> (\<forall>n. store_err cl n = None) \<and> \<not> seen_on_fetch cl \<and> i < length (Inbox cl)"
      have "(\<exists>m\<in>set (polled clock cl). Uid m = Suc i \<and> store_err cl (Uid m) = None)
          = (Inbox cl ! i \<in> set (polled clock cl) \<and> store_err cl (Uid (Inbox cl ! i)) = None)"
        using h by (intro polled_by_position) simp_all
      then show "Seen (Inbox cl' ! i)
            = (Seen (Inbox cl ! i) \<or> Inbox cl ! i \<in> set (polled clock cl))"
        using h checkAccountMail_seen [OF r, of i] by simp
    qed
    show "c' = foldl (\<lambda>c m. processMessage c m (Email acc)) c (polled clock cl)
        \<and> (answers cl \<and> unseen (Inbox cl) \<noteq> [] \<longrightarrow>
             Sent cl' = Sent cl @ [CmdSelect, CmdSearch, CmdFetch (working_set (Inbox cl))]
                        @ map (\<lambda>m. CmdStore (Uid m)) (polled clock cl))
        \<and> ((\<forall>k<length (Inbox cl). Uid (Inbox cl ! k) = Suc k) \<and> (\<forall>n. store_err cl n = None)
             \<and> \<not> seen_on_fetch cl \<and> i < length (Inbox cl) \<longrightarrow>
             Seen (Inbox cl' ! i)
               = (Seen (Inbox cl ! i) \<or> Inbox cl ! i \<in> set (polled clock cl)))"
      using a b s by blast
  qed
  have r: "Envelope msg = Some env \<and> From env = from0 # others
        \<and> \<not> IsAllowed c (MailboxName from0 @ ''@'' @ HostName from0) \<longrightarrow>
        processMessage c msg (Email acc) = c"
    using processMessage_rejected by blast
  show ?thesis
    using e p r by blast
qed

theorem seen_follows_time_filter_witness:
  "returns (checkAccountMail (\<lambda>k. 0) (NewEmailChannel one_account empty_bus)
              (connection [mallory_mail]) bot_account)
   \<and> Sent (snd (state (checkAccountMail (\<lambda>k. 0) (NewEmailChannel one_account empty_bus)
                (connection [mallory_mail]) bot_account)))
     = [CmdSelect, CmdSearch, CmdFetch [1], CmdStore 1]
   \<and> Seen (Inbox (snd (state (checkAccountMail (\<lambda>k. 0) (NewEmailChannel one_account empty_bus)
                (connection [mallory_mail]) bot_account))) ! 0)
   \<and> processMessage (NewEmailChannel one_account empty_bus) mallory_mail (Email bot_account)
     = NewEmailChannel one_account empty_bus
   \<and> fst (state (checkAccountMail (\<lambda>k. 0) (NewEmailChannel one_account empty_bus)
                (connection [mallory_mail]) bot_account))
     = NewEmailChannel one_account empty_bus"
proof -
  let ?ch = "NewEmailChannel one_account empty_bus"
  let ?cl = "connection [mallory_mail]"
  let ?env = "\<lparr>Date = 0, Subject = ''Offer'',
               From = [\<lparr>MailboxName = ''mallory'', HostName = ''example.net''\<rparr>]\<rparr>"
  let ?poll = "checkAccountMail (\<lambda>k. 0) ?ch ?cl bot_account"
  have g: "runs_to_end (\<lambda>k. 0) (fetched ?cl)"
    by code_simp
  have ret: "returns ?poll"
    using seen_follows_time_filter [of "\<lambda>k. 0" ?cl ?ch bot_account] g by blast
  obtain c' cl' where q: "?poll = Returns (c', cl')"
    using ret by (cases ?poll) auto
  note th = seen_follows_time_filter [of "\<lambda>k. 0" ?cl ?ch bot_account c' cl' 0 mallory_mail ?env
      "\<lparr>MailboxName = ''mallory'', HostName = ''example.net''\<rparr>" "[]"]
  have a: "answers ?cl \<and> unseen (Inbox ?cl) \<noteq> []"
    by code_simp
  have w: "working_set (Inbox ?cl) = [1]"
    by code_simp
  have p: "polled (\<lambda>k. 0) ?cl = [mallory_mail]"
    by code_simp
  have u: "Uid mallory_mail = 1"
    by code_simp
  have h: "(\<forall>k<length (Inbox ?cl). Uid (Inbox ?cl ! k) = Suc k) \<and> (\<forall>n. store_err ?cl n = None)
        \<and> \<not> seen_on_fetch ?cl \<and> 0 < length (Inbox ?cl)"
    by (simp add: connection_def u)
  have i: "Inbox ?cl ! 0 \<in> set (polled (\<lambda>k. 0) ?cl)"
    unfolding p by (simp add: connection_def)
  have e: "Envelope mallory_mail = Some ?env
      \<and> From ?env = \<lparr>MailboxName = ''mallory'', HostName = ''example.net''\<rparr> # []
      \<and> \<not> IsAllowed ?ch (MailboxName \<lparr>MailboxName = ''mallory'', HostName = ''example.net''\<rparr>
            @ ''@'' @ HostName \<lparr>MailboxName = ''mallory'', HostName = ''example.net''\<rparr>)"
    by (simp add: mallory_mail_def example_mail_def plain_hello_def IsAllowed_def
        NewEmailChannel_def NewBaseChannel_def one_account_def no_accounts_def Let_def)
  have r: "processMessage ?ch mallory_mail (Email bot_account) = ?ch"
    using th e by blast
  have s: "Sent cl' = Sent ?cl @ [CmdSelect, CmdSearch, CmdFetch (working_set (Inbox ?cl))]
            @ map (\<lambda>m. CmdStore (Uid m)) (polled (\<lambda>k. 0) ?cl)"
    using th q a by blast
  have n: "Seen (Inbox cl' ! 0) = (Seen (Inbox ?cl ! 0) \<or> Inbox ?cl ! 0 \<in> set (polled (\<lambda>k. 0) ?cl))"
    using th q h by blast
  have f: "c' = foldl (\<lambda>c m. processMessage c m (Email bot_account)) ?ch (polled (\<lambda>k. 0) ?cl)"
    using th q by blast
  have s': "Sent cl' = [CmdSelect, CmdSearch, CmdFetch [1], CmdStore 1]"
    unfolding s w p by (simp add: u connection_def)
  have f': "c' = ?ch"
    unfolding f p by (simp add: r)
  show ?thesis
    using ret s' n i r f' unfolding q by simp
qed

theorem seen_without_handoff_counterexample:
  "\<not> IsAllowed (NewEmailChannel one_account empty_bus) ''mallory@example.net''
   \<and> returns (checkAccountMail (\<lambda>k. 0) (NewEmailChannel one_account empty_bus)
                (connection [mallory_mail]) bot_account)
   \<and> inbound (bus (fst (state (checkAccountMail (\<lambda>k. 0) (NewEmailChannel one_account empty_bus)
                                 (connection [mallory_mail]) bot_account)))) = []
   \<and> map Seen (Inbox (connection [mallory_mail])) = [False]
   \<and> map Seen (Inbox (snd (state (checkAccountMail (\<lambda>k. 0)
                                    (NewEmailChannel one_account empty_bus)
                                    (connection [mallory_mail]) bot_account)))) = [True]"
  by code_simp




text \<open>
  C3, at the input of its own example: a mailbox of 15 unread messages, all recent and
  from a sender the allow-list accepts. The cap works: the poll fetches the sequence
  numbers 6 to 15, the last 10 of the unseen ones. But the poll does not come to an end:
  it hands the first fetched message to the bus and blocks in the \<open>Store\<close> for it, with
  nine fetched messages still to be delivered, in the channel with several accounts and
  in the channel with one. So one message is processed, not ten, and no later cycle
  follows.
\<close>

theorem poll_cap_blocks:
  "length (unseen (Inbox (connection fifteen))) = 15
   \<and> working_set (Inbox (connection fifteen)) = [6, 7, 8, 9, 10, 11, 12, 13, 14, 15]
   \<and> map Uid (fetched (connection fifteen)) = [6, 7, 8, 9, 10, 11, 12, 13, 14, 15]
   \<and> length (polled (\<lambda>k. 0) (connection fifteen)) = 10
   \<and> blocks (checkAccountMail (\<lambda>k. 0) (NewEmailChannel one_account empty_bus)
               (connection fifteen) bot_account)
   \<and> map (\<lambda>m. metadata m ''subject'')
        (inbound (bus (fst (state (checkAccountMail (\<lambda>k. 0)
           (NewEmailChannel one_account empty_bus) (connection fifteen) bot_account)))))
     = [Some ''Hi'']
   \<and> blocks (checkAllMail offline (\<lambda>a k. 0)
               ((NewEmailChannel one_account empty_bus)
                  \<lparr>imapClients := [''bot@example.org'' \<mapsto> connection fifteen]\<rparr>))
   \<and> (case checkMail offline (connected_single fifteen) of
        Inl p \<Rightarrow> False
      | Inr r \<Rightarrow> blocks r \<and> length (inbound (bus (state r))) = 1)"
  by code_simp

theorem poll_cap_blocks_witness:
  "\<not> returns (checkAccountMail (\<lambda>k. 0) (NewEmailChannel one_account empty_bus)
                 (connection fifteen) bot_account)
   \<and> length (inbound (bus (fst (state (checkAccountMail (\<lambda>k. 0)
               (NewEmailChannel one_account empty_bus) (connection fifteen) bot_account)))))
     = 1"
proof -
  let ?poll = "checkAccountMail (\<lambda>k. 0) (NewEmailChannel one_account empty_bus)
                 (connection fifteen) bot_account"
  have b: "blocks ?poll"
    using poll_cap_blocks by blast
  have m: "map (\<lambda>m. metadata m ''subject'') (inbound (bus (fst (state ?poll)))) = [Some ''Hi'']"
    using poll_cap_blocks by blast
  have "length (map (\<lambda>m. metadata m ''subject'') (inbound (bus (fst (state ?poll))))) = 1"
    unfolding m by simp
  then have l: "length (inbound (bus (fst (state ?poll)))) = 1"
    by simp
  have "\<not> returns ?poll"
    using b by (cases ?poll) auto
  then show ?thesis using l by simp
qed




text \<open>
  C5: an outbound message whose content is the check command makes \<open>Send\<close> trigger
  the manual check and return nil, with no step on the network, in both channels; the
  slot then holds a request.
\<close>

theorem Send_check_command:
  assumes "Content msg = ''CMD:CHECK''"
  shows "Send net c msg = (Inr None, CheckNow c, [])
       \<and> manualCheck (CheckNow c) \<noteq> []
       \<and> Send_single net c1 msg = (None, CheckNow_single c1, [])
       \<and> manualCheck_single (CheckNow_single c1) \<noteq> []"
  using assms
  by (simp add: Send_def Send_single_def TrimSpace_command CheckNow_def CheckNow_single_def)

theorem Send_check_command_witness:
  "Content check_command = ''CMD:CHECK''
   \<and> Send offline (NewEmailChannel no_accounts empty_bus) check_command
       = (Inr None, (NewEmailChannel no_accounts empty_bus)\<lparr>manualCheck := [True]\<rparr>, [])
   \<and> Send_single offline (fst (NewEmailChannel_single no_accounts empty_bus)) check_command
       = (None, (fst (NewEmailChannel_single no_accounts empty_bus))\<lparr>manualCheck_single := [True]\<rparr>, [])"
  using Send_check_command [of check_command offline "NewEmailChannel no_accounts empty_bus"
      "fst (NewEmailChannel_single no_accounts empty_bus)"]
  by (simp add: check_command_def CheckNow_def CheckNow_single_def NewEmailChannel_def
      NewEmailChannel_single_def Let_def)

text \<open>
  C6: \<open>CheckNow\<close> is a \<open>select\<close> with a default case, so it returns whether or not
  the slot is free. A request on a full slot changes nothing, so at most one request is
  pending, and any number of requests leaves what one request leaves. After two
  requests on an empty slot the poll loop can receive once, which runs one poll, and
  in the state of the channel after that poll the manual case is not ready.
\<close>

theorem CheckNow_coalesces:
  "(manualCheck c = [] \<longrightarrow> manualCheck (CheckNow c) = [True])
   \<and> (manualCheck c \<noteq> [] \<longrightarrow> CheckNow c = c)
   \<and> (length (manualCheck c) \<le> 1 \<longrightarrow> length (manualCheck (CheckNow c)) \<le> 1)
   \<and> (CheckNow ^^ Suc n) c = CheckNow c
   \<and> (manualCheck c = [] \<longrightarrow>
        pollLoop_select net clock ManualCheck (CheckNow (CheckNow c))
          = Some (case checkAllMail net clock c of
                    Returns c1 \<Rightarrow> (Polling, c1)
                  | Blocks c1 \<Rightarrow> (Blocked, c1))
        \<and> pollLoop_select net' clock' ManualCheck (state (checkAllMail net clock c)) = None)
   \<and> (manualCheck_single d = [] \<longrightarrow> manualCheck_single (CheckNow_single d) = [True])
   \<and> (manualCheck_single d \<noteq> [] \<longrightarrow> CheckNow_single d = d)
   \<and> (length (manualCheck_single d) \<le> 1 \<longrightarrow> length (manualCheck_single (CheckNow_single d)) \<le> 1)
   \<and> (CheckNow_single ^^ Suc n) d = CheckNow_single d
   \<and> (manualCheck_single d = [] \<longrightarrow>
        pollLoop_select_single net ManualCheck (CheckNow_single (CheckNow_single d))
          = Some (case checkMail net d of
                    Inl p \<Rightarrow> Inl p
                  | Inr (Returns d1) \<Rightarrow> Inr (Polling, d1)
                  | Inr (Blocks d1) \<Rightarrow> Inr (Blocked, d1))
        \<and> (\<forall>r. checkMail net d = Inr r \<longrightarrow>
              pollLoop_select_single net' ManualCheck (state r) = None))"
proof -
  have a: "manualCheck c = [] \<longrightarrow> manualCheck (CheckNow c) = [True]"
    by (simp add: CheckNow_def)
  have b: "manualCheck c \<noteq> [] \<longrightarrow> CheckNow c = c"
    by (cases "manualCheck c") (simp_all add: CheckNow_def)
  have i: "length (manualCheck c) \<le> 1 \<longrightarrow> length (manualCheck (CheckNow c)) \<le> 1"
    by (simp add: CheckNow_def)
  have p: "manualCheck c = [] \<longrightarrow>
        pollLoop_select net clock ManualCheck (CheckNow (CheckNow c))
          = Some (case checkAllMail net clock c of
                    Returns c1 \<Rightarrow> (Polling, c1)
                  | Blocks c1 \<Rightarrow> (Blocked, c1))
        \<and> pollLoop_select net' clock' ManualCheck (state (checkAllMail net clock c)) = None"
  proof
    assume e: "manualCheck c = []"
    have u: "c\<lparr>manualCheck := []\<rparr> = c"
      using e by (cases c) simp
    have "pollLoop_select net clock ManualCheck (CheckNow (CheckNow c))
          = Some (case checkAllMail net clock (c\<lparr>manualCheck := []\<rparr>) of
                    Returns c1 \<Rightarrow> (Polling, c1)
                  | Blocks c1 \<Rightarrow> (Blocked, c1))"
      using e by (simp add: CheckNow_twice pollLoop_select_def CheckNow_def)
    then have "pollLoop_select net clock ManualCheck (CheckNow (CheckNow c))
          = Some (case checkAllMail net clock c of
                    Returns c1 \<Rightarrow> (Polling, c1)
                  | Blocks c1 \<Rightarrow> (Blocked, c1))"
      unfolding u .
    moreover have "pollLoop_select net' clock' ManualCheck (state (checkAllMail net clock c))
          = None"
      using e by (simp add: pollLoop_select_def checkAllMail_manualCheck)
    ultimately show "pollLoop_select net clock ManualCheck (CheckNow (CheckNow c))
          = Some (case checkAllMail net clock c of
                    Returns c1 \<Rightarrow> (Polling, c1)
                  | Blocks c1 \<Rightarrow> (Blocked, c1))
        \<and> pollLoop_select net' clock' ManualCheck (state (checkAllMail net clock c)) = None"
      by simp
  qed
  have a1: "manualCheck_single d = [] \<longrightarrow> manualCheck_single (CheckNow_single d) = [True]"
    by (simp add: CheckNow_single_def)
  have b1: "manualCheck_single d \<noteq> [] \<longrightarrow> CheckNow_single d = d"
    by (cases "manualCheck_single d") (simp_all add: CheckNow_single_def)
  have i1: "length (manualCheck_single d) \<le> 1 \<longrightarrow> length (manualCheck_single (CheckNow_single d)) \<le> 1"
    by (simp add: CheckNow_single_def)
  have p1: "manualCheck_single d = [] \<longrightarrow>
        pollLoop_select_single net ManualCheck (CheckNow_single (CheckNow_single d))
          = Some (case checkMail net d of
                    Inl p \<Rightarrow> Inl p
                  | Inr (Returns d1) \<Rightarrow> Inr (Polling, d1)
                  | Inr (Blocks d1) \<Rightarrow> Inr (Blocked, d1))
        \<and> (\<forall>r. checkMail net d = Inr r \<longrightarrow>
              pollLoop_select_single net' ManualCheck (state r) = None)"
  proof
    assume e: "manualCheck_single d = []"
    have u: "d\<lparr>manualCheck_single := []\<rparr> = d"
      using e by (cases d) simp
    have "pollLoop_select_single net ManualCheck (CheckNow_single (CheckNow_single d))
          = Some (case checkMail net (d\<lparr>manualCheck_single := []\<rparr>) of
                    Inl p \<Rightarrow> Inl p
                  | Inr (Returns d1) \<Rightarrow> Inr (Polling, d1)
                  | Inr (Blocks d1) \<Rightarrow> Inr (Blocked, d1))"
      using e by (simp add: CheckNow_single_twice pollLoop_select_single_def CheckNow_single_def)
    then have "pollLoop_select_single net ManualCheck (CheckNow_single (CheckNow_single d))
          = Some (case checkMail net d of
                    Inl p \<Rightarrow> Inl p
                  | Inr (Returns d1) \<Rightarrow> Inr (Polling, d1)
                  | Inr (Blocks d1) \<Rightarrow> Inr (Blocked, d1))"
      unfolding u .
    moreover have "\<forall>r. checkMail net d = Inr r \<longrightarrow>
              pollLoop_select_single net' ManualCheck (state r) = None"
      using e by (auto simp: pollLoop_select_single_def dest: checkMail_manualCheck)
    ultimately show "pollLoop_select_single net ManualCheck (CheckNow_single (CheckNow_single d))
          = Some (case checkMail net d of
                    Inl p \<Rightarrow> Inl p
                  | Inr (Returns d1) \<Rightarrow> Inr (Polling, d1)
                  | Inr (Blocks d1) \<Rightarrow> Inr (Blocked, d1))
        \<and> (\<forall>r. checkMail net d = Inr r \<longrightarrow>
              pollLoop_select_single net' ManualCheck (state r) = None)"
      by simp
  qed
  show ?thesis
    using a b i p a1 b1 i1 p1 CheckNow_many [of n c] CheckNow_single_many [of n d]
    by blast
qed

theorem CheckNow_coalesces_witness:
  "manualCheck (NewEmailChannel no_accounts empty_bus) = []
   \<and> manualCheck (CheckNow (CheckNow (NewEmailChannel no_accounts empty_bus))) = [True]
   \<and> pollLoop_select offline (\<lambda>a k. 0) ManualCheck
         (CheckNow (CheckNow (NewEmailChannel no_accounts empty_bus)))
       = Some (Polling, NewEmailChannel no_accounts empty_bus)
   \<and> pollLoop_select offline (\<lambda>a k. 0) ManualCheck (NewEmailChannel no_accounts empty_bus)
       = None
   \<and> manualCheck_single (fst (NewEmailChannel_single no_accounts empty_bus)) = []
   \<and> manualCheck_single (CheckNow_single (CheckNow_single
         (fst (NewEmailChannel_single no_accounts empty_bus)))) = [True]"
proof -
  have c: "checkAllMail offline (\<lambda>a k. 0) (NewEmailChannel no_accounts empty_bus)
      = Returns (NewEmailChannel no_accounts empty_bus)"
    by (simp add: checkAllMail_def connectAllIMAP_def NewEmailChannel_def no_accounts_def
        Let_def)
  have e: "manualCheck (NewEmailChannel no_accounts empty_bus) = []"
    by (simp add: NewEmailChannel_def Let_def)
  have e1: "manualCheck_single (fst (NewEmailChannel_single no_accounts empty_bus)) = []"
    by (simp add: NewEmailChannel_single_def Let_def)
  show ?thesis
    using CheckNow_coalesces [of "NewEmailChannel no_accounts empty_bus" 1 offline
        "\<lambda>a k. 0" offline "\<lambda>a k. 0" "fst (NewEmailChannel_single no_accounts empty_bus)"]
      e e1
    by (simp add: c CheckNow_twice CheckNow_single_twice)
qed




text \<open>
  C8, as the code has it. With several accounts: the body is what the last inline
  \<open>text/plain\<close> part holds when that is not empty; when it is empty, or when the message
  has no inline \<open>text/plain\<close> part, the body is the first non-empty inline
  \<open>text/html\<close> part that follows, and empty when there is none. Parts of other media
  types and attachments are never read. With a single account: the body is all inline
  \<open>text/plain\<close> parts, appended; there is no fallback to another part.
\<close>

theorem body_extraction:
  "(Header p = InlineHeader ''text/plain''
      \<and> (\<forall>q\<in>set after. Header q \<noteq> InlineHeader ''text/plain'') \<longrightarrow>
      extract_body (before @ [p] @ after) []
        = (if Body p \<noteq> [] then Body p
           else case find (\<lambda>q. Header q = InlineHeader ''text/html'' \<and> Body q \<noteq> []) after of
                  None \<Rightarrow> []
                | Some q \<Rightarrow> Body q))
   \<and> ((\<forall>q\<in>set ps. Header q \<noteq> InlineHeader ''text/plain'') \<longrightarrow>
      extract_body ps []
        = (case find (\<lambda>q. Header q = InlineHeader ''text/html'' \<and> Body q \<noteq> []) ps of
             None \<Rightarrow> []
           | Some q \<Rightarrow> Body q))
   \<and> extract_body_single ps []
        = concat (map Body (filter (\<lambda>q. Header q = InlineHeader ''text/plain'') ps))"
proof -
  have a: "Header p = InlineHeader ''text/plain''
      \<and> (\<forall>q\<in>set after. Header q \<noteq> InlineHeader ''text/plain'') \<longrightarrow>
      extract_body (before @ [p] @ after) []
        = (if Body p \<noteq> [] then Body p
           else case find (\<lambda>q. Header q = InlineHeader ''text/html'' \<and> Body q \<noteq> []) after of
                  None \<Rightarrow> []
                | Some q \<Rightarrow> Body q)"
  proof
    assume h: "Header p = InlineHeader ''text/plain''
      \<and> (\<forall>q\<in>set after. Header q \<noteq> InlineHeader ''text/plain'')"
    have "extract_body (before @ [p] @ after) [] = extract_body after (Body p)"
      using h by (simp add: extract_body_append)
    then show "extract_body (before @ [p] @ after) []
        = (if Body p \<noteq> [] then Body p
           else case find (\<lambda>q. Header q = InlineHeader ''text/html'' \<and> Body q \<noteq> []) after of
                  None \<Rightarrow> []
                | Some q \<Rightarrow> Body q)"
      using h extract_body_no_plain [of after "Body p"] by simp
  qed
  have b: "(\<forall>q\<in>set ps. Header q \<noteq> InlineHeader ''text/plain'') \<longrightarrow>
      extract_body ps []
        = (case find (\<lambda>q. Header q = InlineHeader ''text/html'' \<and> Body q \<noteq> []) ps of
             None \<Rightarrow> []
           | Some q \<Rightarrow> Body q)"
    using extract_body_no_plain [of ps "[]"] by simp
  show ?thesis using a b extract_body_single_concat [of ps "[]"] by simp
qed

theorem body_extraction_witness:
  "extract_body [\<lparr>Header = InlineHeader ''text/html'', Body = ''<p>Hello</p>''\<rparr>,
                 \<lparr>Header = InlineHeader ''text/plain'', Body = ''Hello''\<rparr>] [] = ''Hello''
   \<and> extract_body [\<lparr>Header = InlineHeader ''text/calendar'', Body = ''BEGIN:VCALENDAR''\<rparr>,
                   \<lparr>Header = InlineHeader ''text/html'', Body = ''<p>Hello</p>''\<rparr>] []
       = ''<p>Hello</p>''
   \<and> extract_body_single [\<lparr>Header = InlineHeader ''text/plain'', Body = ''Hello''\<rparr>,
                          \<lparr>Header = InlineHeader ''text/html'', Body = ''<p>Hello</p>''\<rparr>,
                          \<lparr>Header = InlineHeader ''text/plain'', Body = '' again''\<rparr>] []
       = ''Hello again''"
proof -
  have a: "extract_body [\<lparr>Header = InlineHeader ''text/html'', Body = ''<p>Hello</p>''\<rparr>,
                 \<lparr>Header = InlineHeader ''text/plain'', Body = ''Hello''\<rparr>] [] = ''Hello''"
    using body_extraction [of "\<lparr>Header = InlineHeader ''text/plain'', Body = ''Hello''\<rparr>" "[]"
        "[\<lparr>Header = InlineHeader ''text/html'', Body = ''<p>Hello</p>''\<rparr>]" "[]"]
    by simp
  have b: "extract_body [\<lparr>Header = InlineHeader ''text/calendar'', Body = ''BEGIN:VCALENDAR''\<rparr>,
                   \<lparr>Header = InlineHeader ''text/html'', Body = ''<p>Hello</p>''\<rparr>] []
       = ''<p>Hello</p>''"
    using body_extraction [of "\<lparr>Header = InlineHeader ''text/plain'', Body = ''Hello''\<rparr>" "[]"
        "[]" "[\<lparr>Header = InlineHeader ''text/calendar'', Body = ''BEGIN:VCALENDAR''\<rparr>,
               \<lparr>Header = InlineHeader ''text/html'', Body = ''<p>Hello</p>''\<rparr>]"]
    by simp
  have c: "extract_body_single [\<lparr>Header = InlineHeader ''text/plain'', Body = ''Hello''\<rparr>,
                          \<lparr>Header = InlineHeader ''text/html'', Body = ''<p>Hello</p>''\<rparr>,
                          \<lparr>Header = InlineHeader ''text/plain'', Body = '' again''\<rparr>] []
       = ''Hello again''"
    using body_extraction [of "\<lparr>Header = InlineHeader ''text/plain'', Body = ''Hello''\<rparr>" "[]"
        "[]" "[\<lparr>Header = InlineHeader ''text/plain'', Body = ''Hello''\<rparr>,
               \<lparr>Header = InlineHeader ''text/html'', Body = ''<p>Hello</p>''\<rparr>,
               \<lparr>Header = InlineHeader ''text/plain'', Body = '' again''\<rparr>]"]
    by simp
  show ?thesis using a b c by simp
qed

theorem body_extraction_counterexample:
  "Section calendar_mail
     = Parts [\<lparr>Header = InlineHeader ''text/calendar'', Body = ''BEGIN:VCALENDAR''\<rparr>]
   \<and> map content (inbound (bus (processMessage (NewEmailChannel one_account empty_bus)
                                   calendar_mail ''bot@example.org'')))
     = [contentWithContext ''bot@example.org'' ''Invitation'' []]
   \<and> extract_body [\<lparr>Header = InlineHeader ''text/plain'', Body = []\<rparr>,
                   \<lparr>Header = InlineHeader ''text/html'', Body = ''<p>Hello</p>''\<rparr>] []
     = ''<p>Hello</p>''"
  by (simp add: calendar_mail_def example_mail_def processMessage_def HandleMessage_def
      IsAllowed_def PublishInbound_def NewEmailChannel_def NewBaseChannel_def one_account_def
      no_accounts_def empty_bus_def Let_def)

text \<open>
  C9, as the code has it: the session of a \<open>Send\<close> that is not the check command. On
  port 465 the first step is the TLS dial; the error returned is that of the first step
  that fails, in the order dial, client, authentication, sender, recipient, data, write,
  close, and nil if none fails; the steps tried are those up to that step and nothing
  after it but the deferred \<open>Quit\<close> and the close of the connection; and no step is
  tried twice. On any other port the session is that of \<open>smtp.SendMail\<close>: it never
  dials with TLS, its first step is the dial without TLS, and it upgrades the connection
  with \<open>STARTTLS\<close> exactly when the lines are valid, the dial and the greeting succeed
  and the server announces the extension; the upgrade then comes third, before
  authentication and mail. No step is tried twice, every step before the last one tried
  has succeeded, an error returned is one the library makes or that of the last step
  tried, and when nil is returned every step has succeeded and the mail has gone through
  sender, recipient, data and \<open>QUIT\<close>. Both channels return what the session returns.
\<close>

theorem smtp_session_by_port:
  "(port = 465 \<longrightarrow>
      hd (snd (smtp_session net server port user password msg))
        = TLSDial (host_port server port) server
      \<and> fst (smtp_session net server port user password msg)
        = (case find (\<lambda>s. smtp net s \<noteq> None)
                  [TLSDial (host_port server port) server, NewClient server,
                   Auth user password server, Mail user, Rcpt (ChatID msg), Data,
                   Write (mail_text (ChatID msg) ''Re: PicoClaw Response'' (Content msg)),
                   Close] of
             None \<Rightarrow> None
           | Some s \<Rightarrow> smtp net s)
      \<and> filter (\<lambda>s. s \<noteq> Quit \<and> s \<noteq> ConnClose)
           (snd (smtp_session net server port user password msg))
        = takeWhile (\<lambda>s. smtp net s = None)
            [TLSDial (host_port server port) server, NewClient server,
             Auth user password server, Mail user, Rcpt (ChatID msg), Data,
             Write (mail_text (ChatID msg) ''Re: PicoClaw Response'' (Content msg)), Close]
          @ take 1 (dropWhile (\<lambda>s. smtp net s = None)
            [TLSDial (host_port server port) server, NewClient server,
             Auth user password server, Mail user, Rcpt (ChatID msg), Data,
             Write (mail_text (ChatID msg) ''Re: PicoClaw Response'' (Content msg)), Close])
      \<and> distinct (snd (smtp_session net server port user password msg)))
   \<and> (port \<noteq> 465 \<longrightarrow>
      smtp_session net server port user password msg
        = SendMail net (host_port server port) user password server user [ChatID msg]
            (mail_text (ChatID msg) ''Re: PicoClaw Response'' (Content msg))
      \<and> (\<forall>a h. TLSDial a h \<notin> set (snd (smtp_session net server port user password msg)))
      \<and> (snd (smtp_session net server port user password msg) \<noteq> [] \<longrightarrow>
           hd (snd (smtp_session net server port user password msg))
             = PlainDial (host_port server port))
      \<and> (StartTLS server \<in> set (snd (smtp_session net server port user password msg)))
         = (validateLine user = None \<and> validateLine (ChatID msg) = None
            \<and> smtp net (PlainDial (host_port server port)) = None \<and> smtp net Hello = None
            \<and> (\<exists>ext. ehlo net = Some ext \<and> ''STARTTLS'' \<in> set ext))
      \<and> (StartTLS server \<in> set (snd (smtp_session net server port user password msg)) \<longrightarrow>
           take 3 (snd (smtp_session net server port user password msg))
             = [PlainDial (host_port server port), Hello, StartTLS server])
      \<and> distinct (snd (smtp_session net server port user password msg))
      \<and> (\<forall>s\<in>set (butlast (filter (\<lambda>s. s \<noteq> ConnClose)
                               (snd (smtp_session net server port user password msg)))).
            smtp net s = None)
      \<and> (fst (smtp_session net server port user password msg) = None \<longrightarrow>
           (\<forall>s\<in>set (snd (smtp_session net server port user password msg)).
              s \<noteq> ConnClose \<longrightarrow> smtp net s = None)
           \<and> {Mail user, Rcpt (ChatID msg), Data,
               Write (mail_text (ChatID msg) ''Re: PicoClaw Response'' (Content msg)),
               Close, Quit}
             \<subseteq> set (snd (smtp_session net server port user password msg)))
      \<and> (\<forall>e. fst (smtp_session net server port user password msg) = Some e \<longrightarrow>
           (\<exists>l. e = LibraryError l)
           \<or> (filter (\<lambda>s. s \<noteq> ConnClose) (snd (smtp_session net server port user password msg))
                \<noteq> []
              \<and> smtp net (last (filter (\<lambda>s. s \<noteq> ConnClose)
                                   (snd (smtp_session net server port user password msg))))
                = Some e)))
   \<and> (TrimSpace (Content msg) \<noteq> ''CMD:CHECK'' \<and> Accounts (config c) = account # rest \<longrightarrow>
      Send net c msg
        = (Inr (fst (smtp_session net (SMTPServer account) (SMTPPort account)
                       (SMTPUser account) (SMTPPassword account) msg)),
           c,
           snd (smtp_session net (SMTPServer account) (SMTPPort account)
                  (SMTPUser account) (SMTPPassword account) msg)))
   \<and> (TrimSpace (Content msg) \<noteq> ''CMD:CHECK'' \<longrightarrow>
      Send_single net d msg
        = (fst (smtp_session net (cfg_SMTPServer (config_single d))
                  (cfg_SMTPPort (config_single d)) (cfg_SMTPUser (config_single d))
                  (cfg_SMTPPassword (config_single d)) msg),
           d,
           snd (smtp_session net (cfg_SMTPServer (config_single d))
                  (cfg_SMTPPort (config_single d)) (cfg_SMTPUser (config_single d))
                  (cfg_SMTPPassword (config_single d)) msg)))"
proof -
  let ?addr = "host_port server port"
  let ?body = "mail_text (ChatID msg) ''Re: PicoClaw Response'' (Content msg)"
  let ?cmds = "[Auth user password server, Mail user, Rcpt (ChatID msg), Data, Write ?body, Close]"
  let ?sess = "smtp_session net server port user password msg"
  have tls: "port = 465 \<longrightarrow>
      hd (snd ?sess) = TLSDial ?addr server
      \<and> fst ?sess = (case find (\<lambda>s. smtp net s \<noteq> None) (TLSDial ?addr server # NewClient server # ?cmds) of
             None \<Rightarrow> None | Some s \<Rightarrow> smtp net s)
      \<and> filter (\<lambda>s. s \<noteq> Quit \<and> s \<noteq> ConnClose) (snd ?sess)
        = takeWhile (\<lambda>s. smtp net s = None) (TLSDial ?addr server # NewClient server # ?cmds)
          @ take 1 (dropWhile (\<lambda>s. smtp net s = None) (TLSDial ?addr server # NewClient server # ?cmds))
      \<and> distinct (snd ?sess)"
  proof
    assume p: "port = 465"
    show "hd (snd ?sess) = TLSDial ?addr server
      \<and> fst ?sess = (case find (\<lambda>s. smtp net s \<noteq> None) (TLSDial ?addr server # NewClient server # ?cmds) of
             None \<Rightarrow> None | Some s \<Rightarrow> smtp net s)
      \<and> filter (\<lambda>s. s \<noteq> Quit \<and> s \<noteq> ConnClose) (snd ?sess)
        = takeWhile (\<lambda>s. smtp net s = None) (TLSDial ?addr server # NewClient server # ?cmds)
          @ take 1 (dropWhile (\<lambda>s. smtp net s = None) (TLSDial ?addr server # NewClient server # ?cmds))
      \<and> distinct (snd ?sess)"
    proof (cases "smtp net (TLSDial ?addr server)")
      case (Some e)
      then show ?thesis using p by (simp add: smtp_session_def Let_def)
    next
      case dial: None
      show ?thesis
      proof (cases "smtp net (NewClient server)")
        case (Some e)
        then show ?thesis using p dial by (simp add: smtp_session_def Let_def)
      next
        case client: None
        obtain r tried where a: "attempt net ?cmds = (r, tried)"
          by (cases "attempt net ?cmds")
        have s: "?sess = (r, [TLSDial ?addr server, NewClient server] @ tried @ [Quit, ConnClose])"
          using p dial client a by (simp add: smtp_session_def Let_def)
        have r: "r = (case find (\<lambda>s. smtp net s \<noteq> None) ?cmds of None \<Rightarrow> None | Some s \<Rightarrow> smtp net s)"
          using attempt_result [of net ?cmds] a by simp
        have t: "tried = takeWhile (\<lambda>s. smtp net s = None) ?cmds
                   @ take 1 (dropWhile (\<lambda>s. smtp net s = None) ?cmds)"
          using attempt_tried [of net ?cmds] a by simp
        have sub: "set tried \<subseteq> set ?cmds"
          using attempt_subset [of net ?cmds] a by simp
        have d: "distinct tried"
          using attempt_distinct [of ?cmds net] a by simp
        have f: "filter (\<lambda>s. s \<noteq> Quit \<and> s \<noteq> ConnClose) tried = tried"
          using sub by (auto simp: filter_id_conv)
        have h: "hd (snd ?sess) = TLSDial ?addr server"
          unfolding s by simp
        have e: "fst ?sess = (case find (\<lambda>s. smtp net s \<noteq> None) (TLSDial ?addr server # NewClient server # ?cmds) of
             None \<Rightarrow> None | Some s \<Rightarrow> smtp net s)"
          unfolding s using dial client r by simp
        have g: "filter (\<lambda>s. s \<noteq> Quit \<and> s \<noteq> ConnClose) (snd ?sess)
            = takeWhile (\<lambda>s. smtp net s = None) (TLSDial ?addr server # NewClient server # ?cmds)
              @ take 1 (dropWhile (\<lambda>s. smtp net s = None) (TLSDial ?addr server # NewClient server # ?cmds))"
          unfolding s using dial client f t by simp
        have n: "distinct (snd ?sess)"
          unfolding s using d sub by auto
        show ?thesis using h e g n by blast
      qed
    qed
  qed
  have plain: "port \<noteq> 465 \<longrightarrow>
      ?sess = SendMail net ?addr user password server user [ChatID msg] ?body
      \<and> (\<forall>a h. TLSDial a h \<notin> set (snd ?sess))
      \<and> (snd ?sess \<noteq> [] \<longrightarrow> hd (snd ?sess) = PlainDial ?addr)
      \<and> (StartTLS server \<in> set (snd ?sess))
         = (validateLine user = None \<and> validateLine (ChatID msg) = None
            \<and> smtp net (PlainDial ?addr) = None \<and> smtp net Hello = None
            \<and> (\<exists>ext. ehlo net = Some ext \<and> ''STARTTLS'' \<in> set ext))
      \<and> (StartTLS server \<in> set (snd ?sess) \<longrightarrow>
           take 3 (snd ?sess) = [PlainDial ?addr, Hello, StartTLS server])
      \<and> distinct (snd ?sess)
      \<and> (\<forall>s\<in>set (butlast (filter (\<lambda>s. s \<noteq> ConnClose) (snd ?sess))). smtp net s = None)
      \<and> (fst ?sess = None \<longrightarrow>
           (\<forall>s\<in>set (snd ?sess). s \<noteq> ConnClose \<longrightarrow> smtp net s = None)
           \<and> {Mail user, Rcpt (ChatID msg), Data, Write ?body, Close, Quit} \<subseteq> set (snd ?sess))
      \<and> (\<forall>e. fst ?sess = Some e \<longrightarrow>
           (\<exists>l. e = LibraryError l)
           \<or> (filter (\<lambda>s. s \<noteq> ConnClose) (snd ?sess) \<noteq> []
              \<and> smtp net (last (filter (\<lambda>s. s \<noteq> ConnClose) (snd ?sess))) = Some e))"
  proof
    assume p: "port \<noteq> 465"
    obtain r tried where m: "SendMail net ?addr user password server user [ChatID msg] ?body
        = (r, tried)"
      by (cases "SendMail net ?addr user password server user [ChatID msg] ?body")
    have s: "?sess = (r, tried)"
      using p m by (simp add: smtp_session_def Let_def)
    obtain steps closing where t: "tried = steps @ closing"
      and c: "closing = [] \<or> closing = [ConnClose]" and n: "ConnClose \<notin> set steps"
      and b: "\<forall>s\<in>set (butlast steps). smtp net s = None"
      and ok: "r = None \<longrightarrow> (\<forall>s\<in>set steps. smtp net s = None)
            \<and> {Mail user, Rcpt (ChatID msg), Data, Write ?body, Close, Quit} \<subseteq> set steps"
      and err: "\<forall>e. r = Some e \<longrightarrow>
            (\<exists>l. e = LibraryError l) \<or> (steps \<noteq> [] \<and> smtp net (last steps) = Some e)"
      using SendMail_steps [OF m] by blast
    have f: "filter (\<lambda>s. s \<noteq> ConnClose) tried = steps"
      using t c n by (auto simp: filter_id_conv)
    have p1: "\<forall>a h. TLSDial a h \<notin> set tried"
      using SendMail_plain(1) [OF m] by auto
    have p2: "tried \<noteq> [] \<longrightarrow> hd tried = PlainDial ?addr"
      using SendMail_plain(2) [OF m] .
    have p3: "(StartTLS server \<in> set tried)
         = (validateLine user = None \<and> validateLine (ChatID msg) = None
            \<and> smtp net (PlainDial ?addr) = None \<and> smtp net Hello = None
            \<and> (\<exists>ext. ehlo net = Some ext \<and> ''STARTTLS'' \<in> set ext))"
      using SendMail_upgrade(1) [OF m] .
    have p4: "StartTLS server \<in> set tried \<longrightarrow>
           take 3 tried = [PlainDial ?addr, Hello, StartTLS server]"
      using SendMail_upgrade(2) [OF m] .
    have p5: "distinct tried"
      using SendMail_plain(3) [OF m] .
    have p6: "\<forall>s\<in>set (butlast (filter (\<lambda>s. s \<noteq> ConnClose) tried)). smtp net s = None"
      unfolding f using b .
    have p7: "r = None \<longrightarrow>
           (\<forall>s\<in>set tried. s \<noteq> ConnClose \<longrightarrow> smtp net s = None)
           \<and> {Mail user, Rcpt (ChatID msg), Data, Write ?body, Close, Quit} \<subseteq> set tried"
      using ok t c by auto
    have p8: "\<forall>e. r = Some e \<longrightarrow>
           (\<exists>l. e = LibraryError l)
           \<or> (filter (\<lambda>s. s \<noteq> ConnClose) tried \<noteq> []
              \<and> smtp net (last (filter (\<lambda>s. s \<noteq> ConnClose) tried)) = Some e)"
      unfolding f using err .
    show "?sess = SendMail net ?addr user password server user [ChatID msg] ?body
      \<and> (\<forall>a h. TLSDial a h \<notin> set (snd ?sess))
      \<and> (snd ?sess \<noteq> [] \<longrightarrow> hd (snd ?sess) = PlainDial ?addr)
      \<and> (StartTLS server \<in> set (snd ?sess))
         = (validateLine user = None \<and> validateLine (ChatID msg) = None
            \<and> smtp net (PlainDial ?addr) = None \<and> smtp net Hello = None
            \<and> (\<exists>ext. ehlo net = Some ext \<and> ''STARTTLS'' \<in> set ext))
      \<and> (StartTLS server \<in> set (snd ?sess) \<longrightarrow>
           take 3 (snd ?sess) = [PlainDial ?addr, Hello, StartTLS server])
      \<and> distinct (snd ?sess)
      \<and> (\<forall>s\<in>set (butlast (filter (\<lambda>s. s \<noteq> ConnClose) (snd ?sess))). smtp net s = None)
      \<and> (fst ?sess = None \<longrightarrow>
           (\<forall>s\<in>set (snd ?sess). s \<noteq> ConnClose \<longrightarrow> smtp net s = None)
           \<and> {Mail user, Rcpt (ChatID msg), Data, Write ?body, Close, Quit} \<subseteq> set (snd ?sess))
      \<and> (\<forall>e. fst ?sess = Some e \<longrightarrow>
           (\<exists>l. e = LibraryError l)
           \<or> (filter (\<lambda>s. s \<noteq> ConnClose) (snd ?sess) \<noteq> []
              \<and> smtp net (last (filter (\<lambda>s. s \<noteq> ConnClose) (snd ?sess))) = Some e))"
      unfolding s m fst_conv snd_conv
      using p1 p2 p3 p4 p5 p6 p7 p8 by blast
  qed
  have multi: "TrimSpace (Content msg) \<noteq> ''CMD:CHECK'' \<and> Accounts (config c) = account # rest \<longrightarrow>
      Send net c msg
        = (Inr (fst (smtp_session net (SMTPServer account) (SMTPPort account)
                       (SMTPUser account) (SMTPPassword account) msg)),
           c,
           snd (smtp_session net (SMTPServer account) (SMTPPort account)
                  (SMTPUser account) (SMTPPassword account) msg))"
    by (auto simp: Send_def Let_def split: prod.splits)
  have single: "TrimSpace (Content msg) \<noteq> ''CMD:CHECK'' \<longrightarrow>
      Send_single net d msg
        = (fst (smtp_session net (cfg_SMTPServer (config_single d))
                  (cfg_SMTPPort (config_single d)) (cfg_SMTPUser (config_single d))
                  (cfg_SMTPPassword (config_single d)) msg),
           d,
           snd (smtp_session net (cfg_SMTPServer (config_single d))
                  (cfg_SMTPPort (config_single d)) (cfg_SMTPUser (config_single d))
                  (cfg_SMTPPassword (config_single d)) msg))"
    by (auto simp: Send_single_def Let_def split: prod.splits)
  show ?thesis using tls plain multi single by blast
qed

theorem smtp_session_by_port_witness:
  "Send rcpt_refused (NewEmailChannel one_account empty_bus) reply
     = (Inr (Some (TransportError ''550 no such user'')),
        NewEmailChannel one_account empty_bus,
        [TLSDial ''smtp.example.org:465'' ''smtp.example.org'',
         NewClient ''smtp.example.org'',
         Auth ''bot@example.org'' ''secret'' ''smtp.example.org'',
         Mail ''bot@example.org'', Rcpt ''alice@example.org'', Quit, ConnClose])
   \<and> StartTLS ''smtp.example.org''
       \<in> set (snd (smtp_session submission ''smtp.example.org'' 587 ''bot@example.org''
                      ''secret'' reply))
   \<and> Send_single submission (fst (NewEmailChannel_single single_account empty_bus)) reply
     = (None,
        fst (NewEmailChannel_single single_account empty_bus),
        [PlainDial ''smtp.example.org:587'', Hello, StartTLS ''smtp.example.org'',
         Auth ''bot@example.org'' ''secret'' ''smtp.example.org'',
         Mail ''bot@example.org'', Rcpt ''alice@example.org'', Data,
         Write (mail_text ''alice@example.org'' ''Re: PicoClaw Response'' ''hello''),
         Close, Quit, ConnClose])"
proof -
  have t: "TrimSpace (Content reply) \<noteq> ''CMD:CHECK''"
    by (simp add: reply_def TrimSpace_hello)
  have a: "Accounts (config (NewEmailChannel one_account empty_bus)) = bot_account # []"
    by (simp add: NewEmailChannel_def one_account_def no_accounts_def Let_def)
  have hp: "host_port ''smtp.example.org'' 465 = ''smtp.example.org:465''"
    by code_simp
  have hq: "host_port ''smtp.example.org'' 587 = ''smtp.example.org:587''"
    by code_simp
  have s1: "smtp_session rcpt_refused ''smtp.example.org'' 465 ''bot@example.org'' ''secret'' reply
     = (Some (TransportError ''550 no such user''),
        [TLSDial ''smtp.example.org:465'' ''smtp.example.org'',
         NewClient ''smtp.example.org'',
         Auth ''bot@example.org'' ''secret'' ''smtp.example.org'',
         Mail ''bot@example.org'', Rcpt ''alice@example.org'', Quit, ConnClose])"
    by (simp add: smtp_session_def rcpt_refused_def reply_def Let_def hp)
  note th = smtp_session_by_port [of 587 submission "''smtp.example.org''" "''bot@example.org''"
      "''secret''" reply]
  have v: "validateLine ''bot@example.org'' = None \<and> validateLine (ChatID reply) = None
      \<and> smtp submission (PlainDial (host_port ''smtp.example.org'' 587)) = None
      \<and> smtp submission Hello = None
      \<and> (\<exists>ext. ehlo submission = Some ext \<and> ''STARTTLS'' \<in> set ext)"
    by (simp add: validateLine_def reply_def submission_def offline_def)
  have u: "StartTLS ''smtp.example.org''
       \<in> set (snd (smtp_session submission ''smtp.example.org'' 587 ''bot@example.org''
                      ''secret'' reply))"
  proof -
    have q: "(587::int) \<noteq> 465"
      by simp
    note i = th [THEN conjunct2, THEN conjunct1, THEN mp, OF q, THEN conjunct2, THEN conjunct2,
        THEN conjunct2, THEN conjunct1]
    show ?thesis
      using v by (rule iffD2 [OF i])
  qed
  have s2: "smtp_session submission ''smtp.example.org'' 587 ''bot@example.org'' ''secret'' reply
     = (None,
        [PlainDial ''smtp.example.org:587'', Hello, StartTLS ''smtp.example.org'',
         Auth ''bot@example.org'' ''secret'' ''smtp.example.org'',
         Mail ''bot@example.org'', Rcpt ''alice@example.org'', Data,
         Write (mail_text ''alice@example.org'' ''Re: PicoClaw Response'' ''hello''),
         Close, Quit, ConnClose])"
    by (simp add: smtp_session_def SendMail_def validateLine_def submission_def offline_def
        reply_def Let_def hq)
  have m: "Send rcpt_refused (NewEmailChannel one_account empty_bus) reply
      = (Inr (fst (smtp_session rcpt_refused (SMTPServer bot_account) (SMTPPort bot_account)
                     (SMTPUser bot_account) (SMTPPassword bot_account) reply)),
         NewEmailChannel one_account empty_bus,
         snd (smtp_session rcpt_refused (SMTPServer bot_account) (SMTPPort bot_account)
                (SMTPUser bot_account) (SMTPPassword bot_account) reply))"
    using smtp_session_by_port [of 465 rcpt_refused "''smtp.example.org''" "''bot@example.org''"
        "''secret''" reply "NewEmailChannel one_account empty_bus" bot_account "[]"] t a
    by blast
  have n: "Send_single submission (fst (NewEmailChannel_single single_account empty_bus)) reply
      = (fst (smtp_session submission ''smtp.example.org'' 587 ''bot@example.org'' ''secret''
                reply),
         fst (NewEmailChannel_single single_account empty_bus),
         snd (smtp_session submission ''smtp.example.org'' 587 ''bot@example.org'' ''secret''
                reply))"
    using t
    by (simp add: Send_single_def single_account_def no_accounts_def
        NewEmailChannel_single_def Let_def split: prod.splits)
  show ?thesis
    unfolding m n using u by (simp add: s1 s2 bot_account_def)
qed

theorem smtp_session_by_port_counterexample:
  "cfg_SMTPPort (config_single (fst (NewEmailChannel_single local_account empty_bus))) = 1025
   \<and> TrimSpace (Content reply) \<noteq> ''CMD:CHECK''
   \<and> ehlo local_relay = Some [''AUTH'']
   \<and> Send_single local_relay (fst (NewEmailChannel_single local_account empty_bus)) reply
     = (None,
        fst (NewEmailChannel_single local_account empty_bus),
        [PlainDial ''localhost:1025'', Hello,
         Auth ''bot@example.org'' ''secret'' ''localhost'',
         Mail ''bot@example.org'', Rcpt ''alice@example.org'', Data,
         Write (mail_text ''alice@example.org'' ''Re: PicoClaw Response'' ''hello''),
         Close, Quit, ConnClose])"
proof -
  have t: "TrimSpace (Content reply) \<noteq> ''CMD:CHECK''"
    by (simp add: reply_def TrimSpace_hello)
  have hp: "host_port ''localhost'' 1025 = ''localhost:1025''"
    by code_simp
  have s: "smtp_session local_relay ''localhost'' 1025 ''bot@example.org'' ''secret'' reply
     = (None,
        [PlainDial ''localhost:1025'', Hello,
         Auth ''bot@example.org'' ''secret'' ''localhost'',
         Mail ''bot@example.org'', Rcpt ''alice@example.org'', Data,
         Write (mail_text ''alice@example.org'' ''Re: PicoClaw Response'' ''hello''),
         Close, Quit, ConnClose])"
    by (simp add: smtp_session_def SendMail_def validateLine_def local_relay_def offline_def
        reply_def Let_def hp)
  have n: "Send_single local_relay (fst (NewEmailChannel_single local_account empty_bus)) reply
      = (fst (smtp_session local_relay ''localhost'' 1025 ''bot@example.org'' ''secret'' reply),
         fst (NewEmailChannel_single local_account empty_bus),
         snd (smtp_session local_relay ''localhost'' 1025 ''bot@example.org'' ''secret'' reply))"
    using t
    by (simp add: Send_single_def local_account_def single_account_def no_accounts_def
        NewEmailChannel_single_def Let_def split: prod.splits)
  have p: "cfg_SMTPPort (config_single (fst (NewEmailChannel_single local_account empty_bus)))
      = 1025"
    by (simp add: local_account_def single_account_def no_accounts_def
        NewEmailChannel_single_def Let_def)
  have e: "ehlo local_relay = Some [''AUTH'']"
    by (simp add: local_relay_def offline_def)
  show ?thesis
    unfolding n using p t e by (simp add: s)
qed



end
